theory Spec2Isabelle
  imports Main "HOL-Library.Product_Lexorder" "HOL-Library.Multiset"
begin

section \<open>Strings and clocks\<close>

text \<open>
  Python strings are modelled as \<^typ>\<open>string\<close>; a character stands for a code point below
  256. Two clocks occur in \<^verbatim>\<open>app.py\<close>: \<^verbatim>\<open>datetime.now()\<close> (local wall clock, here in
  microseconds) and the serializer's \<^verbatim>\<open>int(time.time())\<close> (whole seconds).
\<close>

definition isspace :: "char \<Rightarrow> bool" where
  \<comment> \<open>\<^verbatim>\<open>str.isspace\<close> on one code point below 256\<close>
  "isspace c =
     (let n = (of_char c :: nat)
      in (9 \<le> n \<and> n \<le> 13) \<or> (28 \<le> n \<and> n \<le> 32) \<or> n = 133 \<or> n = 160)"

definition strip :: "string \<Rightarrow> string" where
  \<comment> \<open>\<^verbatim>\<open>str.strip()\<close>\<close>
  "strip s = rev (dropWhile isspace (rev (dropWhile isspace s)))"

definition ascii_digit :: "char \<Rightarrow> bool" where
  "ascii_digit c = (let n = (of_char c :: nat) in 48 \<le> n \<and> n \<le> 57)"

definition ascii_lower :: "char \<Rightarrow> bool" where
  "ascii_lower c = (let n = (of_char c :: nat) in 97 \<le> n \<and> n \<le> 122)"

definition ascii_upper :: "char \<Rightarrow> bool" where
  "ascii_upper c = (let n = (of_char c :: nat) in 65 \<le> n \<and> n \<le> 90)"

definition ascii_alpha :: "char \<Rightarrow> bool" where
  "ascii_alpha c = (ascii_lower c \<or> ascii_upper c)"

definition lower_char :: "char \<Rightarrow> char" where
  \<comment> \<open>\<^verbatim>\<open>str.lower()\<close> on one code point below 256: A-Z and the Latin-1 capitals\<close>
  "lower_char c =
     (let n = (of_char c :: nat)
      in if (65 \<le> n \<and> n \<le> 90) \<or> (192 \<le> n \<and> n \<le> 222 \<and> n \<noteq> 215)
         then char_of (n + 32) else c)"

definition lower :: "string \<Rightarrow> string" where
  "lower s = map lower_char s"

definition isdigit :: "string \<Rightarrow> bool" where
  \<comment> \<open>\<^verbatim>\<open>str.isdigit()\<close>: non-empty, every code point a digit; below 256 these are 0-9 and
      the superscripts two, three and one\<close>
  "isdigit s =
     (s \<noteq> [] \<and>
      list_all (\<lambda>c. ascii_digit c \<or> (of_char c :: nat) \<in> {178, 179, 185}) s)"

definition timedelta_seconds :: "int \<Rightarrow> int" where
  "timedelta_seconds n = n * 1000000"

definition timedelta_days :: "int \<Rightarrow> int" where
  "timedelta_days n = n * 86400 * 1000000"

section \<open>Token codec: \<^verbatim>\<open>URLSafeTimedSerializer\<close>\<close>

text \<open>
  \<^verbatim>\<open>serializer = URLSafeTimedSerializer(app.config['SECRET_KEY'])\<close> comes from the
  \<^verbatim>\<open>itsdangerous\<close> package. Its control flow (\<^verbatim>\<open>Signer.sign/unsign\<close>,
  \<^verbatim>\<open>TimestampSigner.sign/unsign\<close>, \<^verbatim>\<open>Serializer.dumps/loads\<close>) is written out below;
  its primitives (the keyed HMAC, base64, JSON) are the fields of a record, so every
  statement holds for whatever they compute. The secret key is part of
  \<open>get_signature\<close> and \<open>verify_signature\<close>.
\<close>

record intent =
  poll_id :: string
  option_id :: string
  email :: string
  ip :: string

record serializer =
  get_signature :: "string \<Rightarrow> string \<Rightarrow> string"
  verify_signature :: "string \<Rightarrow> string \<Rightarrow> string \<Rightarrow> bool"
  dump_payload :: "intent \<Rightarrow> string"
  load_payload :: "string \<Rightarrow> intent option"
  ts_encode :: "int \<Rightarrow> string"
  ts_decode :: "string \<Rightarrow> int option"

text \<open>
  The exceptions of \<^verbatim>\<open>itsdangerous.exc\<close>. As Python classes, \<^verbatim>\<open>SignatureExpired\<close> is a
  subclass of \<^verbatim>\<open>BadTimeSignature\<close>, which is a subclass of \<^verbatim>\<open>BadSignature\<close>;
  \<^verbatim>\<open>BadPayload\<close> is a sibling of \<^verbatim>\<open>BadSignature\<close>. An \<^verbatim>\<open>except BadTimeSignature\<close> clause
  therefore catches the first two and lets the other two pass.
\<close>

datatype bad_data = SignatureExpired | BadTimeSignature | BadSignature | BadPayload

definition sep :: char where
  "sep = CHR ''.''"

definition rsplit :: "string \<Rightarrow> string \<times> string" where
  \<comment> \<open>\<^verbatim>\<open>s.rsplit(sep, 1)\<close> for an \<open>s\<close> that contains the separator\<close>
  "rsplit s =
     (rev (tl (dropWhile (\<lambda>c. c \<noteq> sep) (rev s))), rev (takeWhile (\<lambda>c. c \<noteq> sep) (rev s)))"

definition sign :: "serializer \<Rightarrow> string \<Rightarrow> string \<Rightarrow> string" where
  \<comment> \<open>\<^verbatim>\<open>Signer.sign\<close>\<close>
  "sign ser salt v = v @ [sep] @ get_signature ser salt v"

definition unsign :: "serializer \<Rightarrow> string \<Rightarrow> string \<Rightarrow> string option + string" where
  \<comment> \<open>\<^verbatim>\<open>Signer.unsign\<close>: no separator raises \<^verbatim>\<open>BadSignature\<close> without a payload, a
      signature that does not verify raises \<^verbatim>\<open>BadSignature(payload=value)\<close>;
      \<open>Inl p\<close> is \<^verbatim>\<open>BadSignature(payload=p)\<close>\<close>
  "unsign ser salt s =
     (if sep \<notin> set s then Inl None
      else (let (v, sg) = rsplit s
            in if verify_signature ser salt v sg then Inr v else Inl (Some v)))"

definition timed_sign :: "serializer \<Rightarrow> string \<Rightarrow> int \<Rightarrow> string \<Rightarrow> string" where
  \<comment> \<open>\<^verbatim>\<open>TimestampSigner.sign\<close> at clock reading \<open>now\<close>\<close>
  "timed_sign ser salt now v = sign ser salt (v @ [sep] @ ts_encode ser now)"

definition timed_unsign ::
  "serializer \<Rightarrow> string \<Rightarrow> int \<Rightarrow> int \<Rightarrow> string \<Rightarrow> bad_data + string" where
  \<comment> \<open>\<^verbatim>\<open>TimestampSigner.unsign(signed_value, max_age)\<close> at clock reading \<open>now\<close>. The
      signer's error is kept (\<open>sig_error\<close>) and \<open>result\<close> is \<^verbatim>\<open>e.payload or b""\<close>. Without a
      separator in \<open>result\<close> the signer's own error is raised again if there was one,
      else \<^verbatim>\<open>BadTimeSignature("timestamp missing")\<close>. With a timestamp part, a signature
      error becomes \<^verbatim>\<open>BadTimeSignature\<close>, as does a timestamp that does not decode; an
      age above \<open>max_age\<close> or below 0 is \<^verbatim>\<open>SignatureExpired\<close>\<close>
  "timed_unsign ser salt max_age now s =
     (let (sig_error, result) =
            (case unsign ser salt s of
               Inr v \<Rightarrow> (False, v)
             | Inl None \<Rightarrow> (True, [])
             | Inl (Some v) \<Rightarrow> (True, v))
      in if sep \<notin> set result
         then (if sig_error then Inl BadSignature else Inl BadTimeSignature)
         else (let (v, ts_bytes) = rsplit result
               in if sig_error then Inl BadTimeSignature
                  else (case ts_decode ser ts_bytes of
                          None \<Rightarrow> Inl BadTimeSignature
                        | Some ts_int \<Rightarrow>
                            (let age = now - ts_int
                             in if age > max_age then Inl SignatureExpired
                                else if age < 0 then Inl SignatureExpired
                                else Inr v))))"

definition dumps :: "serializer \<Rightarrow> string \<Rightarrow> int \<Rightarrow> intent \<Rightarrow> string" where
  \<comment> \<open>\<^verbatim>\<open>serializer.dumps(obj, salt=...)\<close>\<close>
  "dumps ser salt now obj = timed_sign ser salt now (dump_payload ser obj)"

definition loads :: "serializer \<Rightarrow> string \<Rightarrow> int \<Rightarrow> int \<Rightarrow> string \<Rightarrow> bad_data + intent" where
  \<comment> \<open>\<^verbatim>\<open>serializer.loads(token, salt=..., max_age=...)\<close> with its one signer: the error
      of \<^verbatim>\<open>unsign\<close> is raised as it is. A payload that does not decode to the four keys
      read by the caller is \<open>BadPayload\<close>\<close>
  "loads ser salt max_age now s =
     (case timed_unsign ser salt max_age now s of
        Inl e \<Rightarrow> Inl e
      | Inr base64d \<Rightarrow>
          (case load_payload ser base64d of None \<Rightarrow> Inl BadPayload | Some obj \<Rightarrow> Inr obj))"

definition roundtrips :: "serializer \<Rightarrow> string \<Rightarrow> int \<Rightarrow> intent \<Rightarrow> bool" where
  \<comment> \<open>what URL-safe base64, JSON and the HMAC give at one payload and one issuance time:
      encodings without the separator that decode to what was encoded, and a signature
      that verifies\<close>
  "roundtrips ser salt t obj =
     (let v = dump_payload ser obj @ [sep] @ ts_encode ser t
      in sep \<notin> set (ts_encode ser t) \<and>
         sep \<notin> set (get_signature ser salt v) \<and>
         ts_decode ser (ts_encode ser t) = Some t \<and>
         load_payload ser (dump_payload ser obj) = Some obj \<and>
         verify_signature ser salt v (get_signature ser salt v))"

text \<open>A small concrete serializer, used where a statement is evaluated at an input.\<close>

definition demo_signature :: "string \<Rightarrow> string \<Rightarrow> string" where
  "demo_signature salt v = filter (\<lambda>c. c \<noteq> sep) (salt @ v)"

definition demo_dump :: "intent \<Rightarrow> string" where
  "demo_dump obj = poll_id obj @ ''|'' @ option_id obj @ ''|'' @ email obj @ ''|'' @ ip obj"

definition cut :: "string \<Rightarrow> string \<times> string" where
  "cut s = (takeWhile (\<lambda>c. c \<noteq> CHR ''|'') s, drop 1 (dropWhile (\<lambda>c. c \<noteq> CHR ''|'') s))"

definition demo_load :: "string \<Rightarrow> intent option" where
  "demo_load s =
     (if length (filter (\<lambda>c. c = CHR ''|'') s) \<noteq> 3 then None
      else (let (a, r1) = cut s; (b, r2) = cut r1; (c, d) = cut r2
            in Some \<lparr>poll_id = a, option_id = b, email = c, ip = d\<rparr>))"

definition demo_ts_encode :: "int \<Rightarrow> string" where
  "demo_ts_encode t = replicate (nat t) (CHR ''I'')"

definition demo_ts_decode :: "string \<Rightarrow> int option" where
  "demo_ts_decode s = (if list_all (\<lambda>c. c = CHR ''I'') s then Some (int (length s)) else None)"

definition demo_serializer :: serializer where
  "demo_serializer =
     \<lparr>get_signature = demo_signature,
      verify_signature = (\<lambda>salt v sg. sg = demo_signature salt v),
      dump_payload = demo_dump,
      load_payload = demo_load,
      ts_encode = demo_ts_encode,
      ts_decode = demo_ts_decode\<rparr>"

definition demo_intent :: intent where
  "demo_intent = \<lparr>poll_id = ''0123456789ab'', option_id = ''1'', email = ''a@b.com'', ip = ''::1''\<rparr>"

section \<open>Regular expressions: \<^verbatim>\<open>re.match\<close>\<close>

text \<open>
  The two patterns of \<^verbatim>\<open>app.py\<close> are written as terms and matched by derivatives.
  Both patterns end in \<^verbatim>\<open>$\<close>, which in Python matches at the end of the string and
  also just before a newline that ends the string.
\<close>

datatype rexp =
    Zero
  | One
  | Atom "char \<Rightarrow> bool"
  | Alt rexp rexp
  | Times rexp rexp
  | Star rexp

fun nullable :: "rexp \<Rightarrow> bool" where
  "nullable Zero = False"
| "nullable One = True"
| "nullable (Atom P) = False"
| "nullable (Alt r s) = (nullable r \<or> nullable s)"
| "nullable (Times r s) = (nullable r \<and> nullable s)"
| "nullable (Star r) = True"

fun alt_rexp :: "rexp \<Rightarrow> rexp \<Rightarrow> rexp" where
  "alt_rexp Zero s = s"
| "alt_rexp r Zero = r"
| "alt_rexp r s = Alt r s"

fun seq_rexp :: "rexp \<Rightarrow> rexp \<Rightarrow> rexp" where
  "seq_rexp Zero s = Zero"
| "seq_rexp One s = s"
| "seq_rexp r s = Times r s"

fun deriv :: "char \<Rightarrow> rexp \<Rightarrow> rexp" where
  "deriv c Zero = Zero"
| "deriv c One = Zero"
| "deriv c (Atom P) = (if P c then One else Zero)"
| "deriv c (Alt r s) = alt_rexp (deriv c r) (deriv c s)"
| "deriv c (Times r s) =
     (if nullable r then alt_rexp (seq_rexp (deriv c r) s) (deriv c s) else seq_rexp (deriv c r) s)"
| "deriv c (Star r) = seq_rexp (deriv c r) (Star r)"

definition fullmatch :: "rexp \<Rightarrow> string \<Rightarrow> bool" where
  "fullmatch r s = nullable (foldl (\<lambda>r c. deriv c r) r s)"

definition re_match_dollar :: "rexp \<Rightarrow> string \<Rightarrow> bool" where
  \<comment> \<open>\<^verbatim>\<open>re.match('^r$', s) is not None\<close>\<close>
  "re_match_dollar r s =
     (fullmatch r s \<or> (s \<noteq> [] \<and> last s = CHR 0x0A \<and> fullmatch r (butlast s)))"

fun rep :: "nat \<Rightarrow> rexp \<Rightarrow> rexp" where
  \<comment> \<open>\<^verbatim>\<open>r{n}\<close>\<close>
  "rep 0 r = One"
| "rep (Suc n) r = Times r (rep n r)"

definition plus_rexp :: "rexp \<Rightarrow> rexp" where
  \<comment> \<open>\<^verbatim>\<open>r+\<close>\<close>
  "plus_rexp r = Times r (Star r)"

definition lit :: "char \<Rightarrow> rexp" where
  "lit c = Atom (\<lambda>x. x = c)"

definition poll_id_pattern :: rexp where
  \<comment> \<open>\<^verbatim>\<open>[a-f0-9]{12}\<close>\<close>
  "poll_id_pattern =
     rep 12 (Atom (\<lambda>c. ascii_digit c \<or> (let n = (of_char c :: nat) in 97 \<le> n \<and> n \<le> 102)))"

definition email_pattern :: rexp where
  \<comment> \<open>\<^verbatim>\<open>[a-zA-Z0-9._%+-]+@[a-zA-Z0-9.-]+\.[a-zA-Z]{2,}\<close>\<close>
  "email_pattern =
     Times (plus_rexp (Atom (\<lambda>c. ascii_alpha c \<or> ascii_digit c \<or> c \<in> set ''._%+-'')))
    (Times (lit (CHR ''@''))
    (Times (plus_rexp (Atom (\<lambda>c. ascii_alpha c \<or> ascii_digit c \<or> c \<in> set ''.-'')))
    (Times (lit (CHR ''.''))
    (Times (rep 2 (Atom ascii_alpha)) (Star (Atom ascii_alpha))))))"

section \<open>Database\<close>

text \<open>
  The four tables of \<^verbatim>\<open>init_db\<close>, each a list of rows in insertion order, and the two
  \<^verbatim>\<open>AUTOINCREMENT\<close> counters. Connections run with \<^verbatim>\<open>PRAGMA foreign_keys = ON\<close>, so a
  statement that breaks a primary key, a \<^verbatim>\<open>UNIQUE\<close> or a foreign key raises
  \<^verbatim>\<open>sqlite3.IntegrityError\<close> and writes nothing.
\<close>

record poll_row =
  p_id :: string
  question :: string
  created_at :: int
  is_active :: bool
  max_votes :: int
  expire_date :: "int option"

record option_row =
  o_id :: int
  o_poll_id :: string
  option_text :: string
  o_votes :: int

record vote_row =
  v_id :: int
  v_poll_id :: string
  v_email :: string
  v_option_id :: int
  confirmed :: bool
  ip_address :: string
  voted_at :: int

record rate_row =
  r_ip :: string
  r_endpoint :: string
  attempt_count :: int
  last_attempt :: int

record db =
  polls :: "poll_row list"
  options :: "option_row list"
  votes :: "vote_row list"
  rate_limits :: "rate_row list"
  options_seq :: int
  votes_seq :: int

datatype sql_error = IntegrityError

definition init_db :: db where
  \<comment> \<open>the database after \<^verbatim>\<open>init_db()\<close> on a fresh file\<close>
  "init_db = \<lparr>polls = [], options = [], votes = [], rate_limits = [],
              options_seq = 0, votes_seq = 0\<rparr>"

definition sql_integer :: "string \<Rightarrow> int option" where
  \<comment> \<open>a text parameter met by an \<^verbatim>\<open>INTEGER\<close> column: text of decimal digits that fits 64
      bits becomes that integer (\<^verbatim>\<open>'03'\<close> is 3); any other text that \<^verbatim>\<open>isdigit\<close> admits
      equals no integer key\<close>
  "sql_integer s =
     (if s \<noteq> [] \<and> list_all ascii_digit s
      then (let n = foldl (\<lambda>n c. 10 * n + ((of_char c :: int) - 48)) 0 s
            in if n \<le> 9223372036854775807 then Some n else None)
      else None)"

definition select_poll :: "db \<Rightarrow> string \<Rightarrow> poll_row option" where
  \<comment> \<open>\<^verbatim>\<open>SELECT ... FROM polls WHERE id=?\<close>\<close>
  "select_poll d pid = find (\<lambda>p. p_id p = pid) (polls d)"

definition select_option :: "db \<Rightarrow> string \<Rightarrow> string \<Rightarrow> option_row option" where
  \<comment> \<open>\<^verbatim>\<open>SELECT id FROM options WHERE id=? AND poll_id=?\<close>\<close>
  "select_option d oid pid =
     (case sql_integer oid of
        None \<Rightarrow> None
      | Some n \<Rightarrow> find (\<lambda>row. o_id row = n \<and> o_poll_id row = pid) (options d))"

definition select_vote :: "db \<Rightarrow> string \<Rightarrow> string \<Rightarrow> vote_row option" where
  \<comment> \<open>\<^verbatim>\<open>SELECT id FROM votes WHERE poll_id=? AND email=?\<close>\<close>
  "select_vote d pid em = find (\<lambda>v. v_poll_id v = pid \<and> v_email v = em) (votes d)"

definition options_by_id :: "db \<Rightarrow> string \<Rightarrow> option_row list" where
  \<comment> \<open>\<^verbatim>\<open>SELECT * FROM options WHERE poll_id=? ORDER BY id\<close>\<close>
  "options_by_id d pid = sort_key o_id (filter (\<lambda>row. o_poll_id row = pid) (options d))"

definition tally :: "db \<Rightarrow> string \<Rightarrow> option_row list" where
  \<comment> \<open>\<^verbatim>\<open>SELECT * FROM options WHERE poll_id=? ORDER BY votes DESC, id\<close>\<close>
  "tally d pid =
     sort_key (\<lambda>row. (- o_votes row, o_id row)) (filter (\<lambda>row. o_poll_id row = pid) (options d))"

definition insert_poll :: "string \<Rightarrow> string \<Rightarrow> int \<Rightarrow> int \<Rightarrow> db \<Rightarrow> sql_error + db" where
  \<comment> \<open>\<^verbatim>\<open>INSERT INTO polls (id, question, expire_date) VALUES (?, ?, ?)\<close>; \<open>id\<close> is the
      primary key, the other columns take their defaults\<close>
  "insert_poll pid q expire created d =
     (if pid \<in> set (map p_id (polls d)) then Inl IntegrityError
      else Inr (d\<lparr>polls := polls d @
                  [\<lparr>p_id = pid, question = q, created_at = created, is_active = True,
                    max_votes = 1000, expire_date = Some expire\<rparr>]\<rparr>))"

definition insert_option :: "string \<Rightarrow> string \<Rightarrow> db \<Rightarrow> sql_error + db" where
  \<comment> \<open>\<^verbatim>\<open>INSERT INTO options (poll_id, option_text) VALUES (?, ?)\<close>\<close>
  "insert_option pid txt d =
     (if pid \<notin> set (map p_id (polls d)) then Inl IntegrityError
      else Inr (d\<lparr>options := options d @
                  [\<lparr>o_id = options_seq d + 1, o_poll_id = pid, option_text = txt,
                    o_votes = 0\<rparr>],
                 options_seq := options_seq d + 1\<rparr>))"

fun insert_options :: "string \<Rightarrow> string list \<Rightarrow> db \<Rightarrow> sql_error + db" where
  \<comment> \<open>the loop \<^verbatim>\<open>for opt in options: c.execute("INSERT INTO options ...")\<close>\<close>
  "insert_options pid [] d = Inr d"
| "insert_options pid (txt # rest) d =
     (case insert_option pid txt d of
        Inl e \<Rightarrow> Inl e
      | Inr d' \<Rightarrow> insert_options pid rest d')"

definition insert_vote ::
  "string \<Rightarrow> string \<Rightarrow> string \<Rightarrow> string \<Rightarrow> int \<Rightarrow> db \<Rightarrow> sql_error + db" where
  \<comment> \<open>\<^verbatim>\<open>INSERT INTO votes (poll_id, email, option_id, confirmed, ip_address)
      VALUES (?, ?, ?, 1, ?)\<close> under \<^verbatim>\<open>UNIQUE(poll_id, email)\<close> and the two foreign keys\<close>
  "insert_vote pid em oid addr t d =
     (if (pid, em) \<in> set (map (\<lambda>v. (v_poll_id v, v_email v)) (votes d)) then Inl IntegrityError
      else if pid \<notin> set (map p_id (polls d)) then Inl IntegrityError
      else (case sql_integer oid of
              None \<Rightarrow> Inl IntegrityError
            | Some n \<Rightarrow>
                if n \<notin> set (map o_id (options d)) then Inl IntegrityError
                else Inr (d\<lparr>votes := votes d @
                            [\<lparr>v_id = votes_seq d + 1, v_poll_id = pid, v_email = em,
                              v_option_id = n, confirmed = True, ip_address = addr,
                              voted_at = t\<rparr>],
                           votes_seq := votes_seq d + 1\<rparr>)))"

definition increment_votes :: "string \<Rightarrow> db \<Rightarrow> db" where
  \<comment> \<open>\<^verbatim>\<open>UPDATE options SET votes = votes + 1 WHERE id=?\<close>\<close>
  "increment_votes oid d =
     (case sql_integer oid of
        None \<Rightarrow> d
      | Some n \<Rightarrow>
          d\<lparr>options := map (\<lambda>row. if o_id row = n then row\<lparr>o_votes := o_votes row + 1\<rparr> else row)
                           (options d)\<rparr>)"

section \<open>Requests and helpers\<close>

text \<open>
  What a handler reads from outside the database: both clocks, the peer address, the
  \<^verbatim>\<open>X-Forwarded-For\<close> header, the value of \<^verbatim>\<open>uuid.uuid4().hex\<close>, and whether
  \<^verbatim>\<open>send_mailgun_email\<close> returns (\<open>True\<close>) or raises. A form field that is absent is the
  empty string: the code treats \<^verbatim>\<open>None\<close> and \<^verbatim>\<open>""\<close> alike wherever it reads one.
\<close>

record request =
  now :: int
  timestamp :: int
  remote_addr :: string
  x_forwarded_for :: "string option"
  uuid4_hex :: string
  mail_ok :: bool

datatype response =
    TooManyAttempts
  | QuestionTooShort
  | TooFewOptions
  | TooManyOptions
  | OptionsNotDistinct
  | PollCreated string
  | CreatePollFailed
  | InvalidPollId
  | PollNotFound
  | PollNotActive
  | PollExpired
  | PollPage poll_row "option_row list"
  | InvalidEmail
  | NoOptionChosen
  | VotePollNotActive
  | InvalidOption
  | AlreadyVoted
  | ConfirmationSent string
  | MailNotSent
  | LinkExpired
  | LinkInvalid
  | AlreadyConfirmed
  | VoteRecorded
  | AlreadyRecorded
  | InternalServerError
  | ResultsPage poll_row "option_row list" int

definition validate_email :: "string \<Rightarrow> bool" where
  "validate_email e = re_match_dollar email_pattern e"

definition sanitize_input :: "(string \<Rightarrow> string) \<Rightarrow> string \<Rightarrow> nat \<Rightarrow> string" where
  \<comment> \<open>\<open>clean\<close> is \<^verbatim>\<open>bleach.clean(text, tags=[], strip=True)\<close>\<close>
  "sanitize_input clean text max_length =
     (if text = [] then [] else clean (take max_length (strip text)))"

definition get_client_ip :: "request \<Rightarrow> string" where
  "get_client_ip req =
     (case x_forwarded_for req of
        None \<Rightarrow> remote_addr req
      | Some h \<Rightarrow>
          if h = [] then remote_addr req
          else strip (takeWhile (\<lambda>c. c \<noteq> CHR '','') h))"

definition check_rate_limit :: "string \<Rightarrow> int \<Rightarrow> int \<Rightarrow> request \<Rightarrow> db \<Rightarrow> bool \<times> db" where
  \<comment> \<open>the early \<^verbatim>\<open>return False\<close> closes the connection without a commit, so the
      \<^verbatim>\<open>DELETE\<close> before it is not kept\<close>
  "check_rate_limit endpoint max_attempts time_window req d =
     (let addr = get_client_ip req;
          time_threshold = now req - timedelta_seconds time_window;
          kept = filter (\<lambda>r. \<not> last_attempt r < time_threshold) (rate_limits d)
      in case find (\<lambda>r. r_ip r = addr \<and> r_endpoint r = endpoint) kept of
           Some res \<Rightarrow>
             if attempt_count res \<ge> max_attempts then (False, d)
             else (True,
                   d\<lparr>rate_limits :=
                       map (\<lambda>r. if r_ip r = addr \<and> r_endpoint r = endpoint
                                 then r\<lparr>attempt_count := attempt_count r + 1,
                                        last_attempt := now req\<rparr>
                                 else r) kept\<rparr>)
         | None \<Rightarrow>
             (True,
              d\<lparr>rate_limits := kept @
                  [\<lparr>r_ip = addr, r_endpoint = endpoint, attempt_count = 1,
                    last_attempt = now req\<rparr>]\<rparr>))"

definition rate_limit_decorator ::
  "string \<Rightarrow> (request \<Rightarrow> db \<Rightarrow> response \<times> db) \<Rightarrow> request \<Rightarrow> db \<Rightarrow> response \<times> db" where
  "rate_limit_decorator endpoint_name f req d =
     (case check_rate_limit endpoint_name 50 300 req d of
        (False, d') \<Rightarrow> (TooManyAttempts, d')
      | (True, d') \<Rightarrow> f req d')"

section \<open>Routes\<close>

definition valid_options :: "(string \<Rightarrow> string) \<Rightarrow> string list \<Rightarrow> string list" where
  \<comment> \<open>the loop that collects \<^verbatim>\<open>options\<close> from \<^verbatim>\<open>raw_options\<close>\<close>
  "valid_options clean raw_options =
     filter (\<lambda>cleaned. cleaned \<noteq> [] \<and> length cleaned \<ge> 2)
       (map (\<lambda>opt. sanitize_input clean opt 200) raw_options)"

definition create_poll_inner ::
  "(string \<Rightarrow> string) \<Rightarrow> string \<Rightarrow> string list \<Rightarrow> request \<Rightarrow> db \<Rightarrow> response \<times> db" where
  \<comment> \<open>the body of \<^verbatim>\<open>create_poll\<close>; any exception rolls the transaction back\<close>
  "create_poll_inner clean form_question raw_options req d =
     (let q = sanitize_input clean form_question 500
      in if q = [] \<or> length q < 10 then (QuestionTooShort, d)
         else (let opts = valid_options clean raw_options
               in if length opts < 2 then (TooFewOptions, d)
                  else if length opts > 10 then (TooManyOptions, d)
                  else if length opts \<noteq> card (set opts) then (OptionsNotDistinct, d)
                  else (let pid = take 12 (uuid4_hex req);
                            expire = now req + timedelta_days 30
                        in case insert_poll pid q expire (timestamp req) d of
                             Inl e \<Rightarrow> (CreatePollFailed, d)
                           | Inr d1 \<Rightarrow>
                               (case insert_options pid opts d1 of
                                  Inl e \<Rightarrow> (CreatePollFailed, d)
                                | Inr d2 \<Rightarrow> (PollCreated pid, d2)))))"

definition create_poll ::
  "(string \<Rightarrow> string) \<Rightarrow> string \<Rightarrow> string list \<Rightarrow> request \<Rightarrow> db \<Rightarrow> response \<times> db" where
  "create_poll clean form_question raw_options =
     rate_limit_decorator ''create_poll'' (create_poll_inner clean form_question raw_options)"

definition poll :: "string \<Rightarrow> request \<Rightarrow> db \<Rightarrow> response" where
  "poll pid req d =
     (if \<not> re_match_dollar poll_id_pattern pid then InvalidPollId
      else (case select_poll d pid of
              None \<Rightarrow> PollNotFound
            | Some poll_row \<Rightarrow>
                if \<not> is_active poll_row then PollNotActive
                else if (case expire_date poll_row of
                           None \<Rightarrow> False
                         | Some e \<Rightarrow> now req > e) then PollExpired
                else PollPage poll_row (options_by_id d pid)))"

definition vote_inner ::
  "serializer \<Rightarrow> string \<Rightarrow> string \<Rightarrow> string \<Rightarrow> request \<Rightarrow> db \<Rightarrow> response \<times> db" where
  \<comment> \<open>the body of \<^verbatim>\<open>vote\<close>; \<open>ConfirmationSent token\<close> carries the token that was mailed\<close>
  "vote_inner ser pid form_email form_option req d =
     (let em = lower (strip form_email);
          oid = form_option
      in if em = [] \<or> \<not> validate_email em then (InvalidEmail, d)
         else if oid = [] \<or> \<not> isdigit oid then (NoOptionChosen, d)
         else (case select_poll d pid of
                 None \<Rightarrow> (VotePollNotActive, d)
               | Some p \<Rightarrow>
                   if \<not> is_active p then (VotePollNotActive, d)
                   else (case select_option d oid pid of
                           None \<Rightarrow> (InvalidOption, d)
                         | Some opt \<Rightarrow>
                             (case select_vote d pid em of
                                Some existing \<Rightarrow> (AlreadyVoted, d)
                              | None \<Rightarrow>
                                  (let token = dumps ser ''email-confirm-v2'' (timestamp req)
                                         \<lparr>poll_id = pid, option_id = oid, email = em,
                                          ip = remote_addr req\<rparr>
                                   in if mail_ok req then (ConfirmationSent token, d)
                                      else (MailNotSent, d))))))"

definition vote ::
  "serializer \<Rightarrow> string \<Rightarrow> string \<Rightarrow> string \<Rightarrow> request \<Rightarrow> db \<Rightarrow> response \<times> db" where
  "vote ser pid form_email form_option =
     rate_limit_decorator ''vote'' (vote_inner ser pid form_email form_option)"

definition confirm_vote :: "serializer \<Rightarrow> string \<Rightarrow> request \<Rightarrow> db \<Rightarrow> response \<times> db" where
  \<comment> \<open>only \<^verbatim>\<open>SignatureExpired\<close> and \<^verbatim>\<open>BadTimeSignature\<close> are caught around \<^verbatim>\<open>loads\<close>;
      \<^verbatim>\<open>IntegrityError\<close> leaves the transaction uncommitted\<close>
  "confirm_vote ser token req d =
     (case loads ser ''email-confirm-v2'' 3600 (timestamp req) token of
        Inl SignatureExpired \<Rightarrow> (LinkExpired, d)
      | Inl BadTimeSignature \<Rightarrow> (LinkInvalid, d)
      | Inl BadSignature \<Rightarrow> (InternalServerError, d)
      | Inl BadPayload \<Rightarrow> (InternalServerError, d)
      | Inr data \<Rightarrow>
          (case select_vote d (poll_id data) (email data) of
             Some existing \<Rightarrow> (AlreadyConfirmed, d)
           | None \<Rightarrow>
               (case insert_vote (poll_id data) (email data) (option_id data)
                       (remote_addr req) (timestamp req) d of
                  Inl IntegrityError \<Rightarrow> (AlreadyRecorded, d)
                | Inr d1 \<Rightarrow> (VoteRecorded, increment_votes (option_id data) d1))))"

definition results :: "string \<Rightarrow> request \<Rightarrow> db \<Rightarrow> response" where
  "results pid req d =
     (if \<not> re_match_dollar poll_id_pattern pid then InvalidPollId
      else (case select_poll d pid of
              None \<Rightarrow> PollNotFound
            | Some poll_row \<Rightarrow>
                (let opts = tally d pid
                 in ResultsPage poll_row opts (sum_list (map o_votes opts)))))"

section \<open>Sequences of requests\<close>

datatype call =
    CreatePoll string "string list"
  | ViewPoll string
  | Vote string string string
  | ConfirmVote string
  | Results string

fun handle ::
  "serializer \<Rightarrow> (string \<Rightarrow> string) \<Rightarrow> call \<Rightarrow> request \<Rightarrow> db \<Rightarrow> response \<times> db" where
  "handle ser clean (CreatePoll q opts) req d = create_poll clean q opts req d"
| "handle ser clean (ViewPoll pid) req d = (poll pid req d, d)"
| "handle ser clean (Vote pid em oid) req d = vote ser pid em oid req d"
| "handle ser clean (ConfirmVote token) req d = confirm_vote ser token req d"
| "handle ser clean (Results pid) req d = (results pid req d, d)"

fun run :: "serializer \<Rightarrow> (string \<Rightarrow> string) \<Rightarrow> (call \<times> request) list \<Rightarrow> db \<Rightarrow> db" where
  "run ser clean [] d = d"
| "run ser clean ((c, req) # rest) d = run ser clean rest (snd (handle ser clean c req d))"

definition vote_keys :: "db \<Rightarrow> (string \<times> string) list" where
  \<comment> \<open>the \<^verbatim>\<open>(poll_id, email)\<close> pair of every row of \<^verbatim>\<open>votes\<close>\<close>
  "vote_keys d = map (\<lambda>v. (v_poll_id v, v_email v)) (votes d)"

definition poll_options :: "db \<Rightarrow> string \<Rightarrow> option_row list" where
  \<comment> \<open>the rows of \<^verbatim>\<open>options\<close> that belong to one poll, in insertion order\<close>
  "poll_options d pid = filter (\<lambda>row. o_poll_id row = pid) (options d)"

definition spec_votable :: "int \<Rightarrow> poll_row \<Rightarrow> bool" where
  \<comment> \<open>the lifecycle gate in the specification's words: active, and no expiry date or
      \<open>now \<le> expire_date\<close>\<close>
  "spec_votable t p =
     (is_active p \<and> (case expire_date p of None \<Rightarrow> True | Some e \<Rightarrow> t \<le> e))"

text \<open>Inputs at which statements are evaluated.\<close>

definition plain :: "string \<Rightarrow> string" where
  \<comment> \<open>\<^verbatim>\<open>bleach.clean\<close> on text without markup, which it returns as it is\<close>
  "plain s = s"

definition demo_request :: request where
  "demo_request =
     \<lparr>now = 1000, timestamp = 5, remote_addr = ''::1'', x_forwarded_for = None,
      uuid4_hex = ''0123456789abcdef0123456789abcdef'', mail_ok = True\<rparr>"

definition demo_token :: string where
  \<comment> \<open>the token that \<^verbatim>\<open>vote\<close> mails for \<open>demo_intent\<close> at serializer time 5\<close>
  "demo_token = dumps demo_serializer ''email-confirm-v2'' 5 demo_intent"

definition demo_calls :: "(call \<times> request) list" where
  \<comment> \<open>create a poll, vote for its first option, confirm the mailed token\<close>
  "demo_calls =
     [(CreatePoll ''Best language?'' [''Go'', ''Rust''], demo_request),
      (Vote ''0123456789ab'' ''a@b.com'' ''1'', demo_request),
      (ConfirmVote demo_token, demo_request\<lparr>timestamp := 100\<rparr>)]"

definition demo_db :: db where
  \<comment> \<open>the database after \<open>demo_calls\<close>\<close>
  "demo_db = run demo_serializer plain demo_calls init_db"

definition demo_poll_db :: db where
  \<comment> \<open>the database after the first of \<open>demo_calls\<close>: one poll with two options\<close>
  "demo_poll_db = run demo_serializer plain (take 1 demo_calls) init_db"

definition demo_open_db :: db where
  \<comment> \<open>the database after the first two of \<open>demo_calls\<close>: a poll, a mailed token, no vote\<close>
  "demo_open_db = run demo_serializer plain (take 2 demo_calls) init_db"

definition demo_closed_db :: db where
  \<comment> \<open>\<open>demo_open_db\<close> with its poll deactivated and its expiry date in the past\<close>
  "demo_closed_db =
     demo_open_db\<lparr>polls := map (\<lambda>p. p\<lparr>is_active := False, expire_date := Some 0\<rparr>)
                                (polls demo_open_db)\<rparr>"

definition demo_ten_options :: "string list" where
  "demo_ten_options =
     [''o0'', ''o1'', ''o2'', ''o3'', ''o4'', ''o5'', ''o6'', ''o7'', ''o8'', ''o9'']"

section \<open>Token codec: lemmas\<close>

lemma rsplit_append:
  assumes "sep \<notin> set b"
  shows "rsplit (a @ sep # b) = (a, b)"
proof -
  have t: "takeWhile (\<lambda>c. c \<noteq> sep) (rev b @ sep # rev a) = rev b"
    by (subst takeWhile_append2) (use assms in auto)
  have d: "dropWhile (\<lambda>c. c \<noteq> sep) (rev b @ sep # rev a) = sep # rev a"
    by (subst dropWhile_append2) (use assms in auto)
  show ?thesis
    unfolding rsplit_def using t d by simp
qed

lemma unsign_sign:
  assumes "sep \<notin> set (get_signature ser salt v)"
    and "verify_signature ser salt v (get_signature ser salt v)"
  shows "unsign ser salt (sign ser salt v) = Inr v"
  using assms by (simp add: unsign_def sign_def rsplit_append)

lemma timed_unsign_timed_sign:
  assumes "roundtrips ser salt t0 obj" and "t0 \<le> t1"
  shows "timed_unsign ser salt max_age t1 (timed_sign ser salt t0 (dump_payload ser obj)) =
           (if t1 - t0 \<le> max_age then Inr (dump_payload ser obj) else Inl SignatureExpired)"
proof -
  let ?v = "dump_payload ser obj @ sep # ts_encode ser t0"
  from assms(1) have u: "unsign ser salt (sign ser salt ?v) = Inr ?v"
    by (intro unsign_sign) (simp_all add: roundtrips_def Let_def)
  from assms(1) have "sep \<notin> set (ts_encode ser t0)"
    by (simp add: roundtrips_def Let_def)
  then have r: "rsplit ?v = (dump_payload ser obj, ts_encode ser t0)"
    by (simp add: rsplit_append)
  from assms(1) have d: "ts_decode ser (ts_encode ser t0) = Some t0"
    by (simp add: roundtrips_def Let_def)
  show ?thesis
    using assms(2) by (simp add: timed_unsign_def timed_sign_def u r d Let_def)
qed

lemma loads_dumps:
  assumes "roundtrips ser p t0 payload" and "t0 \<le> t1"
  shows "loads ser p max_age t1 (dumps ser p t0 payload) =
           (if t1 - t0 \<le> max_age then Inr payload else Inl SignatureExpired)"
proof -
  from assms(1) have "load_payload ser (dump_payload ser payload) = Some payload"
    by (simp add: roundtrips_def Let_def)
  then show ?thesis
    by (simp add: loads_def dumps_def timed_unsign_timed_sign [OF assms])
qed

section \<open>Database and handlers: lemmas\<close>

lemma select_vote_None_iff:
  "select_vote d pid em = None \<longleftrightarrow> (pid, em) \<notin> set (vote_keys d)"
  by (auto simp: select_vote_def vote_keys_def find_None_iff)

lemma insert_vote_Inr:
  assumes "insert_vote pid em oid addr t d = Inr d'"
  shows "(pid, em) \<notin> set (vote_keys d)"
    and "pid \<in> set (map p_id (polls d))"
    and "\<exists>n. sql_integer oid = Some n \<and> n \<in> set (map o_id (options d)) \<and>
           d' = d\<lparr>votes := votes d @
                   [\<lparr>v_id = votes_seq d + 1, v_poll_id = pid, v_email = em, v_option_id = n,
                     confirmed = True, ip_address = addr, voted_at = t\<rparr>],
                  votes_seq := votes_seq d + 1\<rparr>"
  using assms
  by (auto simp: insert_vote_def vote_keys_def split: if_splits option.splits)

lemma insert_vote_keys:
  assumes "insert_vote pid em oid addr t d = Inr d'"
  shows "vote_keys d' = vote_keys d @ [(pid, em)]"
  using insert_vote_Inr(3) [OF assms] by (auto simp: vote_keys_def)

lemma insert_vote_duplicate:
  "(pid, em) \<in> set (vote_keys d) \<Longrightarrow> insert_vote pid em oid addr t d = Inl IntegrityError"
  by (simp add: insert_vote_def vote_keys_def)

lemma insert_vote_distinct:
  assumes "distinct (vote_keys d)" and "insert_vote pid em oid addr t d = Inr d'"
  shows "distinct (vote_keys d')"
  using assms insert_vote_Inr(1) [OF assms(2)] by (simp add: insert_vote_keys)

lemma increment_votes_votes [simp]: "votes (increment_votes oid d) = votes d"
  by (simp add: increment_votes_def split: option.splits)

lemma increment_votes_polls [simp]: "polls (increment_votes oid d) = polls d"
  by (simp add: increment_votes_def split: option.splits)

lemma vote_keys_increment [simp]: "vote_keys (increment_votes oid d) = vote_keys d"
  by (simp add: vote_keys_def)

lemma check_rate_limit_only_rate_limits:
  assumes "check_rate_limit e m w req d = (b, d')"
  shows "d' = d\<lparr>rate_limits := rate_limits d'\<rparr>"
  using assms
  by (auto simp: check_rate_limit_def Let_def split: option.splits if_splits)

lemma rate_limit_decorator_cases:
  assumes "rate_limit_decorator e f req d = (r, d')"
  shows "(r = TooManyAttempts \<and> d' = d\<lparr>rate_limits := rate_limits d'\<rparr>) \<or>
         (\<exists>rl. f req (d\<lparr>rate_limits := rl\<rparr>) = (r, d'))"
proof (cases "check_rate_limit e 50 300 req d")
  case (Pair b d0)
  from check_rate_limit_only_rate_limits [OF Pair]
  have d0: "d0 = d\<lparr>rate_limits := rate_limits d0\<rparr>" .
  show ?thesis
  proof (cases b)
    case True
    with Pair assms have "f req d0 = (r, d')"
      by (simp add: rate_limit_decorator_def)
    with d0 show ?thesis by metis
  next
    case False
    with Pair assms have "r = TooManyAttempts" and "d' = d0"
      by (simp_all add: rate_limit_decorator_def)
    with d0 show ?thesis by simp
  qed
qed


lemma insert_options_Inr:
  assumes "pid \<in> set (map p_id (polls d))"
  shows "\<exists>new. insert_options pid opts d =
             Inr (d\<lparr>options := options d @ new,
                    options_seq := options_seq d + int (length opts)\<rparr>) \<and>
           map option_text new = opts \<and>
           (\<forall>row \<in> set new. o_poll_id row = pid \<and> o_votes row = 0)"
  using assms
proof (induction opts arbitrary: d)
  case Nil
  then show ?case by simp
next
  case (Cons x rest)
  let ?row = "\<lparr>o_id = options_seq d + 1, o_poll_id = pid, option_text = x, o_votes = 0\<rparr>"
  let ?d1 = "d\<lparr>options := options d @ [?row], options_seq := options_seq d + 1\<rparr>"
  from Cons.prems have step: "insert_option pid x d = Inr ?d1"
    by (simp add: insert_option_def)
  from Cons.prems have "pid \<in> set (map p_id (polls ?d1))" by simp
  from Cons.IH [OF this] obtain new where
    r: "insert_options pid rest ?d1 =
          Inr (?d1\<lparr>options := options ?d1 @ new,
                   options_seq := options_seq ?d1 + int (length rest)\<rparr>)" and
    t: "map option_text new = rest" and
    a: "\<forall>row \<in> set new. o_poll_id row = pid \<and> o_votes row = 0"
    by blast
  have "insert_options pid (x # rest) d =
          Inr (d\<lparr>options := options d @ (?row # new),
                 options_seq := options_seq d + int (length (x # rest))\<rparr>)"
    using step r by (simp add: add.commute add.left_commute)
  moreover have "map option_text (?row # new) = x # rest"
    using t by simp
  moreover have "\<forall>row \<in> set (?row # new). o_poll_id row = pid \<and> o_votes row = 0"
    using a by simp
  ultimately show ?case by (intro exI [of _ "?row # new"] conjI)
qed

lemma create_poll_inner_cases:
  assumes "create_poll_inner clean q raw req d = (r, d')"
  obtains (not_created) "d' = d" "\<forall>pid. r \<noteq> PollCreated pid" "r \<noteq> VoteRecorded"
  | (poll_created) prow new where
      "r = PollCreated (p_id prow)"
      "p_id prow = take 12 (uuid4_hex req)"
      "p_id prow \<notin> set (map p_id (polls d))"
      "d' = d\<lparr>polls := polls d @ [prow], options := options d @ new,
              options_seq := options_seq d + int (length new)\<rparr>"
      "map option_text new = valid_options clean raw"
      "distinct (valid_options clean raw)"
      "\<forall>row \<in> set new. o_poll_id row = p_id prow \<and> o_votes row = 0"
proof -
  let ?q = "sanitize_input clean q 500"
  let ?opts = "valid_options clean raw"
  let ?pid = "take 12 (uuid4_hex req)"
  let ?prow = "\<lparr>p_id = ?pid, question = ?q, created_at = timestamp req, is_active = True,
                max_votes = 1000, expire_date = Some (now req + timedelta_days 30)\<rparr>"
  let ?d1 = "d\<lparr>polls := polls d @ [?prow]\<rparr>"
  show ?thesis
  proof (cases "\<exists>pid. r = PollCreated pid")
    case False
    then have nc: "\<forall>pid. r \<noteq> PollCreated pid" by blast
    have "d' = d"
      using assms nc
      by (auto simp: create_poll_inner_def Let_def split: if_splits sum.splits)
    moreover have "r \<noteq> VoteRecorded"
      using assms
      by (auto simp: create_poll_inner_def Let_def split: if_splits sum.splits)
    ultimately show ?thesis using nc by (intro not_created)
  next
    case True
    then obtain pid0 where r: "r = PollCreated pid0" by blast
    from assms r have valid: "length ?opts = card (set ?opts)"
      and ip: "insert_poll ?pid ?q (now req + timedelta_days 30) (timestamp req) d = Inr ?d1"
      by (auto simp: create_poll_inner_def Let_def insert_poll_def split: if_splits sum.splits)
    from ip have fresh: "?pid \<notin> set (map p_id (polls d))"
      by (auto simp: insert_poll_def split: if_splits)
    have "?pid \<in> set (map p_id (polls ?d1))" by simp
    from insert_options_Inr [OF this, of ?opts] obtain new where
      io: "insert_options ?pid ?opts ?d1 =
             Inr (?d1\<lparr>options := options ?d1 @ new,
                      options_seq := options_seq ?d1 + int (length ?opts)\<rparr>)" and
      t: "map option_text new = ?opts" and
      a: "\<forall>row \<in> set new. o_poll_id row = ?pid \<and> o_votes row = 0"
      by blast
    have len: "length new = length ?opts"
      using t by (metis length_map)
    from assms r ip io have res: "pid0 = ?pid"
      "d' = ?d1\<lparr>options := options ?d1 @ new,
                 options_seq := options_seq ?d1 + int (length ?opts)\<rparr>"
      by (auto simp: create_poll_inner_def Let_def split: if_splits sum.splits)
    have d': "d' = d\<lparr>polls := polls d @ [?prow], options := options d @ new,
                  options_seq := options_seq d + int (length new)\<rparr>"
      unfolding res len by simp
    have dist: "distinct ?opts"
      using valid by (simp add: card_distinct)
    show ?thesis
    proof (rule poll_created [of ?prow new])
      show "r = PollCreated (p_id ?prow)" using r res by simp
      show "p_id ?prow = ?pid" by simp
      show "p_id ?prow \<notin> set (map p_id (polls d))" using fresh by simp
      show "d' = d\<lparr>polls := polls d @ [?prow], options := options d @ new,
                  options_seq := options_seq d + int (length new)\<rparr>" by (rule d')
      show "map option_text new = ?opts" by (rule t)
      show "distinct ?opts" by (rule dist)
      show "\<forall>row \<in> set new. o_poll_id row = p_id ?prow \<and> o_votes row = 0"
        using a by simp
    qed
  qed
qed

lemma confirm_vote_cases:
  assumes "confirm_vote ser token req d = (r, d')"
  obtains (not_recorded) "d' = d" "r \<noteq> VoteRecorded" "\<forall>pid. r \<noteq> PollCreated pid"
  | (vote_recorded) data n where
      "r = VoteRecorded"
      "loads ser ''email-confirm-v2'' 3600 (timestamp req) token = Inr data"
      "(poll_id data, email data) \<notin> set (vote_keys d)"
      "poll_id data \<in> set (map p_id (polls d))"
      "sql_integer (option_id data) = Some n"
      "n \<in> set (map o_id (options d))"
      "d' = d\<lparr>votes := votes d @
                 [\<lparr>v_id = votes_seq d + 1, v_poll_id = poll_id data, v_email = email data,
                   v_option_id = n, confirmed = True, ip_address = remote_addr req,
                   voted_at = timestamp req\<rparr>],
              votes_seq := votes_seq d + 1,
              options := map (\<lambda>row. if o_id row = n
                                     then row\<lparr>o_votes := o_votes row + 1\<rparr> else row)
                           (options d)\<rparr>"
proof (cases "loads ser ''email-confirm-v2'' 3600 (timestamp req) token")
  case (Inl e)
  with assms have "d' = d" "r \<noteq> VoteRecorded" "\<forall>pid. r \<noteq> PollCreated pid"
    by (cases e; auto simp: confirm_vote_def)+
  then show ?thesis by (rule not_recorded)
next
  case (Inr data)
  show ?thesis
  proof (cases "select_vote d (poll_id data) (email data)")
    case (Some v)
    with Inr assms have "d' = d" "r \<noteq> VoteRecorded" "\<forall>pid. r \<noteq> PollCreated pid"
      by (auto simp: confirm_vote_def)
    then show ?thesis by (rule not_recorded)
  next
    case None
    show ?thesis
    proof (cases "insert_vote (poll_id data) (email data) (option_id data)
                    (remote_addr req) (timestamp req) d")
      case (Inl e)
      with None Inr assms have "d' = d" "r \<noteq> VoteRecorded" "\<forall>pid. r \<noteq> PollCreated pid"
        by (cases e; auto simp: confirm_vote_def)+
      then show ?thesis by (rule not_recorded)
    next
      case d1: (Inr d1)
      from insert_vote_Inr [OF d1] obtain n where
        k: "(poll_id data, email data) \<notin> set (vote_keys d)" and
        p: "poll_id data \<in> set (map p_id (polls d))" and
        n: "sql_integer (option_id data) = Some n" "n \<in> set (map o_id (options d))" and
        e: "d1 = d\<lparr>votes := votes d @
                   [\<lparr>v_id = votes_seq d + 1, v_poll_id = poll_id data, v_email = email data,
                     v_option_id = n, confirmed = True, ip_address = remote_addr req,
                     voted_at = timestamp req\<rparr>],
                  votes_seq := votes_seq d + 1\<rparr>"
        by blast
      from assms Inr None d1 have r: "r = VoteRecorded"
        and d': "d' = increment_votes (option_id data) d1"
        by (auto simp: confirm_vote_def)
      show ?thesis
      proof (rule vote_recorded [of data n])
        show "d' = d\<lparr>votes := votes d @
                 [\<lparr>v_id = votes_seq d + 1, v_poll_id = poll_id data, v_email = email data,
                   v_option_id = n, confirmed = True, ip_address = remote_addr req,
                   voted_at = timestamp req\<rparr>],
              votes_seq := votes_seq d + 1,
              options := map (\<lambda>row. if o_id row = n
                                     then row\<lparr>o_votes := o_votes row + 1\<rparr> else row)
                           (options d)\<rparr>"
          unfolding d' e by (simp add: increment_votes_def n)
      qed (use r Inr k p n in simp_all)
    qed
  qed
qed

lemma vote_inner_db: "snd (vote_inner ser pid em oid req d) = d"
  by (simp add: vote_inner_def Let_def split: option.splits)

lemma vote_inner_response:
  "fst (vote_inner ser pid em oid req d) \<noteq> VoteRecorded"
  "fst (vote_inner ser pid em oid req d) \<noteq> PollCreated p"
  by (simp_all add: vote_inner_def Let_def split: option.splits)

lemma select_rate_limits [simp]:
  "select_poll (d\<lparr>rate_limits := rl\<rparr>) pid = select_poll d pid"
  "select_option (d\<lparr>rate_limits := rl\<rparr>) oid pid = select_option d oid pid"
  "select_vote (d\<lparr>rate_limits := rl\<rparr>) pid em = select_vote d pid em"
  "vote_keys (d\<lparr>rate_limits := rl\<rparr>) = vote_keys d"
  by (simp_all add: select_poll_def select_option_def select_vote_def vote_keys_def
        split: option.splits)

lemma poll_response [simp]:
  "poll pid req d \<noteq> VoteRecorded" "poll pid req d \<noteq> PollCreated p"
  by (simp_all add: poll_def split: option.splits)

lemma results_response [simp]:
  "results pid req d \<noteq> VoteRecorded" "results pid req d \<noteq> PollCreated p"
  by (simp_all add: results_def Let_def split: option.splits)

lemma handle_cases:
  assumes "handle ser clean c req d = (r, d')"
  obtains (unchanged)
      "polls d' = polls d" "options d' = options d" "votes d' = votes d"
      "r \<noteq> VoteRecorded" "\<forall>pid. r \<noteq> PollCreated pid"
  | (created) q raw prow new where
      "c = CreatePoll q raw" "r = PollCreated (p_id prow)"
      "p_id prow \<notin> set (map p_id (polls d))"
      "polls d' = polls d @ [prow]" "options d' = options d @ new" "votes d' = votes d"
      "map option_text new = valid_options clean raw"
      "distinct (valid_options clean raw)"
      "\<forall>row \<in> set new. o_poll_id row = p_id prow \<and> o_votes row = 0"
  | (recorded) vrow n where
      "r = VoteRecorded" "polls d' = polls d" "votes d' = votes d @ [vrow]"
      "(v_poll_id vrow, v_email vrow) \<notin> set (vote_keys d)"
      "options d' = map (\<lambda>row. if o_id row = n
                                then row\<lparr>o_votes := o_votes row + 1\<rparr> else row) (options d)"
proof (cases c)
  case (CreatePoll q raw)
  with assms have "rate_limit_decorator ''create_poll'' (create_poll_inner clean q raw) req d
                     = (r, d')"
    by (simp add: create_poll_def)
  from rate_limit_decorator_cases [OF this] show ?thesis
  proof
    assume "r = TooManyAttempts \<and> d' = d\<lparr>rate_limits := rate_limits d'\<rparr>"
    then have r: "r = TooManyAttempts" and e: "d' = d\<lparr>rate_limits := rate_limits d'\<rparr>"
      by blast+
    have "polls d' = polls d" "options d' = options d" "votes d' = votes d"
      by (subst e, simp)+
    then show ?thesis using r by (intro unchanged) simp_all
  next
    assume "\<exists>rl. create_poll_inner clean q raw req (d\<lparr>rate_limits := rl\<rparr>) = (r, d')"
    then obtain rl where
      "create_poll_inner clean q raw req (d\<lparr>rate_limits := rl\<rparr>) = (r, d')" by blast
    then show ?thesis
    proof (cases rule: create_poll_inner_cases)
      case not_created
      then show ?thesis by (intro unchanged) simp_all
    next
      case (poll_created prow new)
      show ?thesis
      proof (rule created [of q raw prow new])
        show "c = CreatePoll q raw" by (rule CreatePoll)
      qed (use poll_created in simp_all)
    qed
  qed
next
  case (ViewPoll pid)
  with assms show ?thesis by (intro unchanged) auto
next
  case (Vote pid em oid)
  with assms have "rate_limit_decorator ''vote'' (vote_inner ser pid em oid) req d = (r, d')"
    by (simp add: vote_def)
  from rate_limit_decorator_cases [OF this] show ?thesis
  proof
    assume "r = TooManyAttempts \<and> d' = d\<lparr>rate_limits := rate_limits d'\<rparr>"
    then have r: "r = TooManyAttempts" and e: "d' = d\<lparr>rate_limits := rate_limits d'\<rparr>"
      by blast+
    have "polls d' = polls d" "options d' = options d" "votes d' = votes d"
      by (subst e, simp)+
    then show ?thesis using r by (intro unchanged) simp_all
  next
    assume "\<exists>rl. vote_inner ser pid em oid req (d\<lparr>rate_limits := rl\<rparr>) = (r, d')"
    then obtain rl where v: "vote_inner ser pid em oid req (d\<lparr>rate_limits := rl\<rparr>) = (r, d')"
      by blast
    with vote_inner_db [of ser pid em oid req "d\<lparr>rate_limits := rl\<rparr>"]
    have "d' = d\<lparr>rate_limits := rl\<rparr>" by simp
    moreover from v vote_inner_response [of ser pid em oid req "d\<lparr>rate_limits := rl\<rparr>"]
    have "r \<noteq> VoteRecorded" "\<forall>p. r \<noteq> PollCreated p" by simp_all
    ultimately show ?thesis by (intro unchanged) simp_all
  qed
next
  case (ConfirmVote token)
  with assms have "confirm_vote ser token req d = (r, d')" by simp
  then show ?thesis
  proof (cases rule: confirm_vote_cases)
    case not_recorded
    then show ?thesis by (intro unchanged) simp_all
  next
    case (vote_recorded data n)
    show ?thesis
      by (rule recorded
            [of "\<lparr>v_id = votes_seq d + 1, v_poll_id = poll_id data, v_email = email data,
                   v_option_id = n, confirmed = True, ip_address = remote_addr req,
                   voted_at = timestamp req\<rparr>" n])
         (use vote_recorded in simp_all)
  qed
next
  case (Results pid)
  with assms show ?thesis by (intro unchanged) auto
qed

lemma handle_votes_distinct:
  assumes "distinct (vote_keys d)"
  shows "distinct (vote_keys (snd (handle ser clean c req d)))"
proof -
  obtain r d' where h: "handle ser clean c req d = (r, d')" by (cases "handle ser clean c req d")
  from h have "distinct (vote_keys d')"
    by (cases rule: handle_cases) (use assms in \<open>auto simp: vote_keys_def\<close>)
  with h show ?thesis by simp
qed

lemma run_votes_distinct:
  "distinct (vote_keys d) \<Longrightarrow> distinct (vote_keys (run ser clean reqs d))"
proof (induction reqs arbitrary: d)
  case Nil
  then show ?case by simp
next
  case (Cons a reqs)
  obtain c req where a: "a = (c, req)" by (cases a)
  from Cons.IH [OF handle_votes_distinct [OF Cons.prems]] show ?case
    by (simp add: a)
qed

lemma confirm_vote_records:
  assumes l: "loads ser ''email-confirm-v2'' 3600 (timestamp req) token = Inr data"
    and k: "(poll_id data, email data) \<notin> set (vote_keys d)"
    and p: "poll_id data \<in> set (map p_id (polls d))"
    and n: "sql_integer (option_id data) = Some n"
    and o: "n \<in> set (map o_id (options d))"
  shows "confirm_vote ser token req d =
           (VoteRecorded,
            d\<lparr>votes := votes d @
                 [\<lparr>v_id = votes_seq d + 1, v_poll_id = poll_id data, v_email = email data,
                   v_option_id = n, confirmed = True, ip_address = remote_addr req,
                   voted_at = timestamp req\<rparr>],
              votes_seq := votes_seq d + 1,
              options := map (\<lambda>row. if o_id row = n
                                     then row\<lparr>o_votes := o_votes row + 1\<rparr> else row)
                           (options d)\<rparr>)"
proof -
  from k have s: "select_vote d (poll_id data) (email data) = None"
    by (simp add: select_vote_None_iff)
  from k p n o have i: "insert_vote (poll_id data) (email data) (option_id data)
                          (remote_addr req) (timestamp req) d =
      Inr (d\<lparr>votes := votes d @
                 [\<lparr>v_id = votes_seq d + 1, v_poll_id = poll_id data, v_email = email data,
                   v_option_id = n, confirmed = True, ip_address = remote_addr req,
                   voted_at = timestamp req\<rparr>],
              votes_seq := votes_seq d + 1\<rparr>)"
    by (simp add: insert_vote_def vote_keys_def)
  show ?thesis
    by (simp add: confirm_vote_def l s i increment_votes_def n)
qed

lemma confirm_vote_existing:
  assumes l: "loads ser ''email-confirm-v2'' 3600 (timestamp req) token = Inr data"
    and k: "(poll_id data, email data) \<in> set (vote_keys d)"
  shows "confirm_vote ser token req d = (AlreadyConfirmed, d)"
proof -
  from k have "select_vote d (poll_id data) (email data) \<noteq> None"
    by (simp add: select_vote_None_iff)
  then obtain v where "select_vote d (poll_id data) (email data) = Some v" by blast
  with l show ?thesis by (simp add: confirm_vote_def)
qed

lemma length_filter_distinct:
  "distinct xs \<Longrightarrow> x \<in> set xs \<Longrightarrow> length (filter ((=) x) xs) = 1"
  by (induction xs) (auto simp: filter_empty_conv)

lemma count_key_distinct:
  assumes "distinct (vote_keys d)" and "(pid, em) \<in> set (vote_keys d)"
  shows "length (filter (\<lambda>v. v_poll_id v = pid \<and> v_email v = em) (votes d)) = 1"
proof -
  have "length (filter (\<lambda>v. v_poll_id v = pid \<and> v_email v = em) (votes d)) =
        length (filter ((=) (pid, em)) (vote_keys d))"
    unfolding vote_keys_def filter_map length_map
    by (rule arg_cong [where f = length], rule filter_cong) auto
  also have "\<dots> = 1"
    using assms by (rule length_filter_distinct)
  finally show ?thesis .
qed

lemma find_Some_set: "find P xs = Some x \<Longrightarrow> x \<in> set xs \<and> P x"
  by (induction xs) (auto split: if_splits)

lemma select_poll_Some:
  assumes "select_poll d pid = Some p"
  shows "pid \<in> set (map p_id (polls d))" and "p \<in> set (polls d)" and "p_id p = pid"
  using find_Some_set [of "\<lambda>p. p_id p = pid" "polls d" p] assms
  by (auto simp: select_poll_def)

lemma get_client_ip_mail_ok [simp]:
  "get_client_ip (req\<lparr>mail_ok := b\<rparr>) = get_client_ip req"
  by (simp add: get_client_ip_def split: option.splits)

lemma check_rate_limit_mail_ok [simp]:
  "check_rate_limit e m w (req\<lparr>mail_ok := b\<rparr>) d = check_rate_limit e m w req d"
  by (simp add: check_rate_limit_def Let_def split: option.splits)

lemma vote_inner_mail_fails:
  assumes "vote_inner ser pid em oid (req\<lparr>mail_ok := True\<rparr>) d = (ConfirmationSent token, d')"
  shows "vote_inner ser pid em oid (req\<lparr>mail_ok := False\<rparr>) d = (MailNotSent, d)"
  using assms
  by (auto simp: vote_inner_def Let_def split: if_splits option.splits)

lemma vote_inner_not_sent:
  "\<not> mail_ok req \<Longrightarrow> fst (vote_inner ser pid em oid req d) \<noteq> ConfirmationSent token"
  by (simp add: vote_inner_def Let_def split: option.splits)

lemma vote_tables:
  assumes "vote ser pid em oid req d = (r, d')"
  shows "d' = d\<lparr>rate_limits := rate_limits d'\<rparr>"
proof -
  from assms have "rate_limit_decorator ''vote'' (vote_inner ser pid em oid) req d = (r, d')"
    by (simp add: vote_def)
  from rate_limit_decorator_cases [OF this] show ?thesis
  proof
    assume "r = TooManyAttempts \<and> d' = d\<lparr>rate_limits := rate_limits d'\<rparr>"
    then show ?thesis by blast
  next
    assume "\<exists>rl. vote_inner ser pid em oid req (d\<lparr>rate_limits := rl\<rparr>) = (r, d')"
    then obtain rl where "vote_inner ser pid em oid req (d\<lparr>rate_limits := rl\<rparr>) = (r, d')"
      by blast
    with vote_inner_db [of ser pid em oid req "d\<lparr>rate_limits := rl\<rparr>"]
    have "d' = d\<lparr>rate_limits := rl\<rparr>" by simp
    then show ?thesis by simp
  qed
qed

lemma tally_poll_options:
  "tally d pid = sort_key (\<lambda>row. (- o_votes row, o_id row)) (poll_options d pid)"
  by (simp add: tally_def poll_options_def)

lemma mset_tally:
  "mset (map option_text (tally d pid)) = mset (map option_text (poll_options d pid))"
  by (simp add: tally_poll_options)

lemma select_poll_in:
  assumes "pid \<in> set (map p_id (polls d))"
  shows "\<exists>p. select_poll d pid = Some p"
proof -
  from assms have "select_poll d pid \<noteq> None"
    by (auto simp: select_poll_def find_None_iff)
  then show ?thesis by blast
qed

lemma handle_fk:
  assumes "set (map o_poll_id (options d)) \<subseteq> set (map p_id (polls d))"
  shows "set (map o_poll_id (options (snd (handle ser clean c req d))))
           \<subseteq> set (map p_id (polls (snd (handle ser clean c req d))))"
proof -
  obtain r d' where h: "handle ser clean c req d = (r, d')" by (cases "handle ser clean c req d")
  from h have "set (map o_poll_id (options d')) \<subseteq> set (map p_id (polls d'))"
  proof (cases rule: handle_cases)
    case unchanged
    with assms show ?thesis by simp
  next
    case (created q raw prow new)
    with assms show ?thesis by auto
  next
    case (recorded vrow n)
    have "map o_poll_id (options d') = map o_poll_id (options d)"
      unfolding recorded by (simp add: comp_def if_distrib [of o_poll_id] cong: if_cong)
    with assms recorded show ?thesis by simp
  qed
  with h show ?thesis by simp
qed

lemma run_fk:
  "set (map o_poll_id (options d)) \<subseteq> set (map p_id (polls d)) \<Longrightarrow>
   set (map o_poll_id (options (run ser clean reqs d)))
     \<subseteq> set (map p_id (polls (run ser clean reqs d)))"
proof (induction reqs arbitrary: d)
  case Nil
  then show ?case by simp
next
  case (Cons a reqs)
  obtain c req where a: "a = (c, req)" by (cases a)
  from Cons.IH [OF handle_fk [OF Cons.prems]] show ?case
    by (simp add: a)
qed

lemma handle_poll_options:
  assumes "pid \<in> set (map p_id (polls d))"
  shows "pid \<in> set (map p_id (polls (snd (handle ser clean c req d)))) \<and>
         map option_text (poll_options (snd (handle ser clean c req d)) pid)
           = map option_text (poll_options d pid)"
proof -
  obtain r d' where h: "handle ser clean c req d = (r, d')" by (cases "handle ser clean c req d")
  from h have "pid \<in> set (map p_id (polls d')) \<and>
               map option_text (poll_options d' pid) = map option_text (poll_options d pid)"
  proof (cases rule: handle_cases)
    case unchanged
    with assms show ?thesis by (simp add: poll_options_def)
  next
    case (created q raw prow new)
    from created(3) assms have ne: "p_id prow \<noteq> pid" by auto
    with created(9) have "filter (\<lambda>row. o_poll_id row = pid) new = []"
      by (auto simp: filter_empty_conv)
    with created assms show ?thesis by (simp add: poll_options_def)
  next
    case (recorded vrow n)
    have "map option_text (poll_options d' pid) = map option_text (poll_options d pid)"
      unfolding poll_options_def recorded filter_map
      by (simp add: comp_def if_distrib [of o_poll_id] if_distrib [of option_text] cong: if_cong)
    with assms recorded show ?thesis by simp
  qed
  with h show ?thesis by simp
qed

lemma run_poll_options:
  "pid \<in> set (map p_id (polls d)) \<Longrightarrow>
   pid \<in> set (map p_id (polls (run ser clean reqs d))) \<and>
   map option_text (poll_options (run ser clean reqs d) pid)
     = map option_text (poll_options d pid)"
proof (induction reqs arbitrary: d)
  case Nil
  then show ?case by simp
next
  case (Cons a reqs)
  obtain c req where a: "a = (c, req)" by (cases a)
  from handle_poll_options [OF Cons.prems, of ser clean c req]
  have 1: "pid \<in> set (map p_id (polls (snd (handle ser clean c req d))))"
    and 2: "map option_text (poll_options (snd (handle ser clean c req d)) pid)
              = map option_text (poll_options d pid)"
    by blast+
  from Cons.IH [OF 1] 2 show ?case
    by (simp add: a)
qed

lemma create_poll_response:
  assumes rate: "fst (check_rate_limit ''create_poll'' 50 300 req d)"
    and fresh: "take 12 (uuid4_hex req) \<notin> set (map p_id (polls d))"
  shows "fst (create_poll clean q raw req d) =
           (if length (sanitize_input clean q 500) < 10 then QuestionTooShort
            else if length (valid_options clean raw) < 2 then TooFewOptions
            else if length (valid_options clean raw) > 10 then TooManyOptions
            else if \<not> distinct (valid_options clean raw) then OptionsNotDistinct
            else PollCreated (take 12 (uuid4_hex req)))"
proof -
  let ?qs = "sanitize_input clean q 500"
  let ?opts = "valid_options clean raw"
  let ?pid = "take 12 (uuid4_hex req)"
  obtain b d0 where ch: "check_rate_limit ''create_poll'' 50 300 req d = (b, d0)"
    by (cases "check_rate_limit ''create_poll'' 50 300 req d")
  with rate have b: "b" by simp
  from check_rate_limit_only_rate_limits [OF ch]
  have "polls d0 = polls d" by (metis db.select_convs(1) db.surjective db.update_convs(4))
  with fresh have f0: "?pid \<notin> set (map p_id (polls d0))" by simp
  have cp: "fst (create_poll clean q raw req d) = fst (create_poll_inner clean q raw req d0)"
    using ch b by (simp add: create_poll_def rate_limit_decorator_def)
  let ?d1 = "d0\<lparr>polls := polls d0 @
               [\<lparr>p_id = ?pid, question = ?qs, created_at = timestamp req, is_active = True,
                 max_votes = 1000, expire_date = Some (now req + timedelta_days 30)\<rparr>]\<rparr>"
  have ip: "insert_poll ?pid ?qs (now req + timedelta_days 30) (timestamp req) d0 = Inr ?d1"
    using f0 by (simp add: insert_poll_def)
  have "?pid \<in> set (map p_id (polls ?d1))" by simp
  from insert_options_Inr [OF this, of ?opts] obtain d2 where
    io: "insert_options ?pid ?opts ?d1 = Inr d2" by blast
  have dc: "length ?opts \<noteq> card (set ?opts) \<longleftrightarrow> \<not> distinct ?opts"
    using card_distinct [of ?opts] distinct_card [of ?opts] by auto
  have qe: "?qs = [] \<or> length ?qs < 10 \<longleftrightarrow> length ?qs < 10" by auto
  show ?thesis
    unfolding cp create_poll_inner_def Let_def qe dc
    by (simp add: ip io)
qed

lemma confirm_vote_expired_link:
  assumes "roundtrips ser ''email-confirm-v2'' t0 obj" and "t0 \<le> timestamp req"
    and "timestamp req - t0 > 3600"
  shows "confirm_vote ser (dumps ser ''email-confirm-v2'' t0 obj) req d = (LinkExpired, d)"
  using assms by (simp add: confirm_vote_def loads_dumps)

lemma confirm_vote_invalid_link:
  assumes "sep \<notin> set sg" and "\<not> verify_signature ser ''email-confirm-v2'' (v @ sep # ts) sg"
  shows "confirm_vote ser (v @ sep # ts @ sep # sg) req d = (LinkInvalid, d)"
proof -
  have "rsplit ((v @ sep # ts) @ sep # sg) = (v @ sep # ts, sg)"
    using assms(1) by (rule rsplit_append)
  then have "unsign ser ''email-confirm-v2'' (v @ sep # ts @ sep # sg) = Inl (Some (v @ sep # ts))"
    using assms(2) by (simp add: unsign_def)
  then have "loads ser ''email-confirm-v2'' 3600 (timestamp req) (v @ sep # ts @ sep # sg)
               = Inl BadTimeSignature"
    by (simp add: loads_def timed_unsign_def split: prod.splits)
  then show ?thesis by (simp add: confirm_vote_def)
qed

lemma created_options_valid:
  assumes c: "create_poll clean q raw req (run ser clean before init_db) = (PollCreated pid, d1)"
  shows "length (poll_options d1 pid) = card (set (valid_options clean raw)) \<and>
         map option_text (poll_options d1 pid) = valid_options clean raw \<and>
         (let d2 = run ser clean later d1
          in mset (map option_text (tally d2 pid)) = mset (valid_options clean raw) \<and>
             (re_match_dollar poll_id_pattern pid \<longrightarrow>
                (\<exists>p total. results pid req2 d2 = ResultsPage p (tally d2 pid) total)))"
proof -
  let ?d = "run ser clean before init_db"
  have "set (map o_poll_id (options init_db)) \<subseteq> set (map p_id (polls init_db))"
    by (simp add: init_db_def)
  then have fk: "set (map o_poll_id (options ?d)) \<subseteq> set (map p_id (polls ?d))"
    by (rule run_fk)
  from c have h: "handle ser clean (CreatePoll q raw) req ?d = (PollCreated pid, d1)"
    by simp
  from h obtain prow new where
    pid: "pid = p_id prow" and
    fresh: "p_id prow \<notin> set (map p_id (polls ?d))" and
    polls: "polls d1 = polls ?d @ [prow]" and
    opts: "options d1 = options ?d @ new" and
    texts: "map option_text new = valid_options clean raw" and
    dist: "distinct (valid_options clean raw)" and
    own: "\<forall>row \<in> set new. o_poll_id row = p_id prow \<and> o_votes row = 0"
    by (cases rule: handle_cases) auto
  have "o_poll_id row \<noteq> p_id prow" if "row \<in> set (options ?d)" for row
  proof
    assume "o_poll_id row = p_id prow"
    with that have "p_id prow \<in> set (map o_poll_id (options ?d))" by force
    with fk fresh show False by blast
  qed
  then have "filter (\<lambda>row. o_poll_id row = pid) (options ?d) = []"
    unfolding pid by (simp add: filter_empty_conv)
  moreover from own have "filter (\<lambda>row. o_poll_id row = pid) new = new"
    unfolding pid by (simp add: filter_id_conv)
  ultimately have po: "poll_options d1 pid = new"
    by (simp add: poll_options_def opts)
  have len: "length (poll_options d1 pid) = card (set (valid_options clean raw))"
    using dist texts by (metis po distinct_card length_map)
  have t1: "map option_text (poll_options d1 pid) = valid_options clean raw"
    by (simp add: po texts)
  have in1: "pid \<in> set (map p_id (polls d1))"
    by (simp add: polls pid)
  let ?d2 = "run ser clean later d1"
  from run_poll_options [OF in1, of ser clean later]
  have in2: "pid \<in> set (map p_id (polls ?d2))"
    and t2: "map option_text (poll_options ?d2 pid) = valid_options clean raw"
    by (simp_all add: t1)
  have "mset (map option_text (tally ?d2 pid)) = mset (map option_text (poll_options ?d2 pid))"
    by (rule mset_tally)
  also have "\<dots> = mset (valid_options clean raw)"
    by (simp only: t2)
  finally have m: "mset (map option_text (tally ?d2 pid)) = mset (valid_options clean raw)" .
  have r: "\<exists>p total. results pid req2 ?d2 = ResultsPage p (tally ?d2 pid) total"
    if "re_match_dollar poll_id_pattern pid"
  proof -
    from select_poll_in [OF in2] obtain p where "select_poll ?d2 pid = Some p" by blast
    with that show ?thesis by (simp add: results_def Let_def)
  qed
  from len t1 m r show ?thesis by (simp add: Let_def)
qed

lemma valid_options_submitted:
  "valid_options clean raw =
     filter (\<lambda>cleaned. 2 \<le> length cleaned)
       (map (\<lambda>opt. if opt = [] then [] else clean (take 200 (strip opt))) raw)"
proof -
  have "(\<lambda>cleaned :: string. cleaned \<noteq> [] \<and> length cleaned \<ge> 2) = (\<lambda>cleaned. 2 \<le> length cleaned)"
    by auto
  then show ?thesis
    by (simp add: valid_options_def sanitize_input_def)
qed

section \<open>Identifier shape and lifecycle checks: lemmas\<close>

lemma foldl_deriv_Zero [simp]: "foldl (\<lambda>r c. deriv c r) Zero s = Zero"
  by (induction s) simp_all

lemma fullmatch_rep_Atom:
  "fullmatch (rep n (Atom P)) s \<longleftrightarrow> length s = n \<and> list_all P s"
proof (induction n arbitrary: s)
  case 0
  show ?case by (cases s) (simp_all add: fullmatch_def)
next
  case (Suc n)
  show ?case
  proof (cases s)
    case Nil
    then show ?thesis by (simp add: fullmatch_def)
  next
    case (Cons c cs)
    have "fullmatch (rep (Suc n) (Atom P)) (c # cs) \<longleftrightarrow>
          (P c \<and> fullmatch (rep n (Atom P)) cs)"
      by (simp add: fullmatch_def)
    with Suc.IH [of cs] Cons show ?thesis by auto
  qed
qed

lemma poll_id_shape:
  "re_match_dollar poll_id_pattern pid \<longleftrightarrow>
     (length pid = 12 \<and>
      list_all (\<lambda>c. ascii_digit c \<or> (let n = (of_char c :: nat) in 97 \<le> n \<and> n \<le> 102)) pid) \<or>
     (length pid = 13 \<and> last pid = CHR 0x0A \<and>
      list_all (\<lambda>c. ascii_digit c \<or> (let n = (of_char c :: nat) in 97 \<le> n \<and> n \<le> 102))
        (butlast pid))"
  unfolding re_match_dollar_def poll_id_pattern_def fullmatch_rep_Atom
  by (cases pid) auto

lemma poll_page_votable:
  assumes "poll pid req d = PollPage p opts"
  shows "select_poll d pid = Some p \<and> spec_votable (now req) p"
  using assms
  by (auto simp: poll_def spec_votable_def split: if_splits option.splits)

lemma vote_inner_missing_or_inactive:
  assumes "select_poll d pid = None \<or> (\<exists>p. select_poll d pid = Some p \<and> \<not> is_active p)"
  shows "fst (vote_inner ser pid em oid req d) \<in> {InvalidEmail, NoOptionChosen, VotePollNotActive}"
  using assms
  by (auto simp: vote_inner_def Let_def split: option.splits)

section \<open>Token codec: claims\<close>

text \<open>
  C4. Token round-trip: a token minted for a payload under a purpose (salt) at time
  \<open>t0\<close> and verified under the same purpose at a later time \<open>t1\<close> gives back the
  payload when \<open>t1 - t0 \<le> max_age\<close>, and the error \<open>SignatureExpired\<close> when more than
  \<open>max_age\<close> has elapsed.
\<close>

theorem token_roundtrip:
  assumes "roundtrips ser p t0 payload" and "t0 \<le> t1"
  shows "loads ser p max_age t1 (dumps ser p t0 payload) =
           (if t1 - t0 \<le> max_age then Inr payload else Inl SignatureExpired)"
  using assms by (rule loads_dumps)

theorem token_roundtrip_witness:
  "roundtrips demo_serializer ''email-confirm-v2'' 5 demo_intent \<and> (5::int) \<le> 7 \<and>
   loads demo_serializer ''email-confirm-v2'' 3600 7
     (dumps demo_serializer ''email-confirm-v2'' 5 demo_intent) = Inr demo_intent"
proof -
  have h: "roundtrips demo_serializer ''email-confirm-v2'' 5 demo_intent"
    by code_simp
  show ?thesis
    using h token_roundtrip [OF h, of 7 3600] by simp
qed

section \<open>Poll store and vote workflow: claims\<close>

text \<open>
  C1. In every database reached from the initial one by any sequence of requests there is
  at most one row of \<^verbatim>\<open>votes\<close> per (poll_id, email) pair. The storage statement itself
  refuses a second row for a pair (\<^verbatim>\<open>UNIQUE(poll_id, email)\<close> raises
  \<^verbatim>\<open>IntegrityError\<close>), and a confirmation for a pair that already has a row answers
  "already confirmed" and leaves the database as it was.
\<close>

theorem one_vote_per_poll_and_email:
  "let d = run ser clean reqs init_db
   in distinct (vote_keys d) \<and>
      ((pid, em) \<in> set (vote_keys d) \<longrightarrow>
         insert_vote pid em oid addr t d = Inl IntegrityError \<and>
         (loads ser ''email-confirm-v2'' 3600 (timestamp req) token = Inr data \<and>
          poll_id data = pid \<and> email data = em \<longrightarrow>
            confirm_vote ser token req d = (AlreadyConfirmed, d)))"
proof -
  define d where "d = run ser clean reqs init_db"
  have "distinct (vote_keys init_db)" by (simp add: vote_keys_def init_db_def)
  then have 1: "distinct (vote_keys d)"
    unfolding d_def by (rule run_votes_distinct)
  have 2: "insert_vote pid em oid addr t d = Inl IntegrityError"
    if "(pid, em) \<in> set (vote_keys d)"
    using that by (rule insert_vote_duplicate)
  have 3: "confirm_vote ser token req d = (AlreadyConfirmed, d)"
    if k: "(pid, em) \<in> set (vote_keys d)"
      and l: "loads ser ''email-confirm-v2'' 3600 (timestamp req) token = Inr data"
      and e: "poll_id data = pid" "email data = em"
  proof -
    from k e have "select_vote d (poll_id data) (email data) \<noteq> None"
      by (simp add: select_vote_None_iff)
    then obtain v where "select_vote d (poll_id data) (email data) = Some v" by blast
    with l show ?thesis by (simp add: confirm_vote_def)
  qed
  from 1 2 3 show ?thesis
    unfolding d_def [symmetric] Let_def by blast
qed

theorem one_vote_per_poll_and_email_witness:
  "(''0123456789ab'', ''a@b.com'') \<in> set (vote_keys demo_db) \<and>
   loads demo_serializer ''email-confirm-v2'' 3600 200 demo_token = Inr demo_intent \<and>
   distinct (vote_keys demo_db) \<and>
   insert_vote ''0123456789ab'' ''a@b.com'' ''2'' ''::1'' 200 demo_db = Inl IntegrityError \<and>
   confirm_vote demo_serializer demo_token (demo_request\<lparr>timestamp := 200\<rparr>) demo_db
     = (AlreadyConfirmed, demo_db)"
proof -
  have m: "(''0123456789ab'', ''a@b.com'') \<in> set (vote_keys demo_db)"
    by code_simp
  have l: "loads demo_serializer ''email-confirm-v2'' 3600 200 demo_token = Inr demo_intent"
    by code_simp
  have p: "poll_id demo_intent = ''0123456789ab''" "email demo_intent = ''a@b.com''"
    by (simp_all add: demo_intent_def)
  show ?thesis
    using m l p
      one_vote_per_poll_and_email [of demo_serializer plain demo_calls
        "''0123456789ab''" "''a@b.com''" "''2''" "''::1''" 200
        "demo_request\<lparr>timestamp := 200\<rparr>" demo_token demo_intent]
    by (simp add: Let_def demo_db_def [symmetric])
qed

text \<open>
  C2. Confirming one token twice, at two times at which it verifies, for a poll and an
  option that exist: the second confirmation answers "already confirmed" and changes
  nothing, exactly one row of \<^verbatim>\<open>votes\<close> has the token's (poll_id, email) afterwards, and
  when no such row existed before, the first confirmation records the vote and the
  option's counter has gone up by one after both, not by two.
\<close>

theorem confirm_twice_one_vote:
  assumes l1: "loads ser ''email-confirm-v2'' 3600 (timestamp req1) token = Inr data"
    and l2: "loads ser ''email-confirm-v2'' 3600 (timestamp req2) token = Inr data"
    and inv: "distinct (vote_keys d)"
    and p: "poll_id data \<in> set (map p_id (polls d))"
    and n: "sql_integer (option_id data) = Some n"
    and o: "n \<in> set (map o_id (options d))"
  shows "let (r1, d1) = confirm_vote ser token req1 d;
             (r2, d2) = confirm_vote ser token req2 d1
         in r2 = AlreadyConfirmed \<and> d2 = d1 \<and>
            length (filter (\<lambda>v. v_poll_id v = poll_id data \<and> v_email v = email data)
                      (votes d2)) = 1 \<and>
            (if (poll_id data, email data) \<in> set (vote_keys d)
             then r1 = AlreadyConfirmed \<and> d1 = d
             else r1 = VoteRecorded \<and>
                  options d2 = map (\<lambda>row. if o_id row = n
                                           then row\<lparr>o_votes := o_votes row + 1\<rparr> else row)
                                 (options d))"
proof (cases "(poll_id data, email data) \<in> set (vote_keys d)")
  case True
  have c1: "confirm_vote ser token req1 d = (AlreadyConfirmed, d)"
    using l1 True by (rule confirm_vote_existing)
  have c2: "confirm_vote ser token req2 d = (AlreadyConfirmed, d)"
    using l2 True by (rule confirm_vote_existing)
  from count_key_distinct [OF inv True] True show ?thesis
    by (simp add: c1 c2)
next
  case False
  let ?d1 = "d\<lparr>votes := votes d @
                 [\<lparr>v_id = votes_seq d + 1, v_poll_id = poll_id data, v_email = email data,
                   v_option_id = n, confirmed = True, ip_address = remote_addr req1,
                   voted_at = timestamp req1\<rparr>],
              votes_seq := votes_seq d + 1,
              options := map (\<lambda>row. if o_id row = n
                                     then row\<lparr>o_votes := o_votes row + 1\<rparr> else row)
                           (options d)\<rparr>"
  have c1: "confirm_vote ser token req1 d = (VoteRecorded, ?d1)"
    using l1 False p n o by (rule confirm_vote_records)
  have k1: "(poll_id data, email data) \<in> set (vote_keys ?d1)"
    by (simp add: vote_keys_def)
  have c2: "confirm_vote ser token req2 ?d1 = (AlreadyConfirmed, ?d1)"
    using l2 k1 by (rule confirm_vote_existing)
  have inv1: "distinct (vote_keys ?d1)"
    using inv False by (simp add: vote_keys_def)
  from count_key_distinct [OF inv1 k1] False show ?thesis
    by (simp add: c1 c2)
qed

theorem confirm_twice_one_vote_witness:
  "loads demo_serializer ''email-confirm-v2'' 3600 (timestamp (demo_request\<lparr>timestamp := 100\<rparr>))
     demo_token = Inr demo_intent \<and>
   loads demo_serializer ''email-confirm-v2'' 3600 (timestamp (demo_request\<lparr>timestamp := 200\<rparr>))
     demo_token = Inr demo_intent \<and>
   distinct (vote_keys demo_open_db) \<and>
   poll_id demo_intent \<in> set (map p_id (polls demo_open_db)) \<and>
   sql_integer (option_id demo_intent) = Some 1 \<and>
   1 \<in> set (map o_id (options demo_open_db)) \<and>
   (poll_id demo_intent, email demo_intent) \<notin> set (vote_keys demo_open_db) \<and>
   (let (r1, d1) = confirm_vote demo_serializer demo_token (demo_request\<lparr>timestamp := 100\<rparr>)
                     demo_open_db;
        (r2, d2) = confirm_vote demo_serializer demo_token (demo_request\<lparr>timestamp := 200\<rparr>) d1
    in r1 = VoteRecorded \<and> r2 = AlreadyConfirmed \<and> d2 = d1 \<and>
       length (filter (\<lambda>v. v_poll_id v = poll_id demo_intent \<and> v_email v = email demo_intent)
                 (votes d2)) = 1 \<and>
       options d2 = map (\<lambda>row. if o_id row = 1
                                then row\<lparr>o_votes := o_votes row + 1\<rparr> else row)
                      (options demo_open_db))"
proof -
  have l1: "loads demo_serializer ''email-confirm-v2'' 3600
              (timestamp (demo_request\<lparr>timestamp := 100\<rparr>)) demo_token = Inr demo_intent"
    by code_simp
  have l2: "loads demo_serializer ''email-confirm-v2'' 3600
              (timestamp (demo_request\<lparr>timestamp := 200\<rparr>)) demo_token = Inr demo_intent"
    by code_simp
  have inv: "distinct (vote_keys demo_open_db)" by code_simp
  have p: "poll_id demo_intent \<in> set (map p_id (polls demo_open_db))" by code_simp
  have n: "sql_integer (option_id demo_intent) = Some 1" by code_simp
  have o: "1 \<in> set (map o_id (options demo_open_db))" by code_simp
  have k: "(poll_id demo_intent, email demo_intent) \<notin> set (vote_keys demo_open_db)"
    by code_simp
  from confirm_twice_one_vote [OF l1 l2 inv p n o] k
  have "let (r1, d1) = confirm_vote demo_serializer demo_token (demo_request\<lparr>timestamp := 100\<rparr>)
                     demo_open_db;
        (r2, d2) = confirm_vote demo_serializer demo_token (demo_request\<lparr>timestamp := 200\<rparr>) d1
    in r1 = VoteRecorded \<and> r2 = AlreadyConfirmed \<and> d2 = d1 \<and>
       length (filter (\<lambda>v. v_poll_id v = poll_id demo_intent \<and> v_email v = email demo_intent)
                 (votes d2)) = 1 \<and>
       options d2 = map (\<lambda>row. if o_id row = 1
                                then row\<lparr>o_votes := o_votes row + 1\<rparr> else row)
                      (options demo_open_db)"
    by (auto simp: Let_def split: prod.splits)
  with l1 l2 inv p n o k show ?thesis by blast
qed

text \<open>
  C10. \<^verbatim>\<open>confirm_vote\<close> does not look at the poll's \<^verbatim>\<open>is_active\<close> or \<^verbatim>\<open>expire_date\<close>:
  for a token that verifies, with no vote yet for its (poll_id, email), whose poll row
  \<open>p\<close> and option exist, the vote is inserted and the option's counter incremented,
  whatever the lifecycle fields of \<open>p\<close> are.
\<close>

theorem confirm_vote_ignores_poll_lifecycle:
  assumes l: "loads ser ''email-confirm-v2'' 3600 (timestamp req) token = Inr data"
    and k: "select_vote d (poll_id data) (email data) = None"
    and sp: "select_poll d (poll_id data) = Some p"
    and n: "sql_integer (option_id data) = Some n"
    and o: "n \<in> set (map o_id (options d))"
  shows "confirm_vote ser token req d =
           (VoteRecorded,
            d\<lparr>votes := votes d @
                 [\<lparr>v_id = votes_seq d + 1, v_poll_id = poll_id data, v_email = email data,
                   v_option_id = n, confirmed = True, ip_address = remote_addr req,
                   voted_at = timestamp req\<rparr>],
              votes_seq := votes_seq d + 1,
              options := map (\<lambda>row. if o_id row = n
                                     then row\<lparr>o_votes := o_votes row + 1\<rparr> else row)
                           (options d)\<rparr>)"
proof -
  from k have "(poll_id data, email data) \<notin> set (vote_keys d)"
    by (simp add: select_vote_None_iff)
  moreover from sp have "poll_id data \<in> set (map p_id (polls d))"
    by (rule select_poll_Some)
  ultimately show ?thesis
    using l n o by (intro confirm_vote_records)
qed

theorem confirm_vote_ignores_poll_lifecycle_witness:
  "loads demo_serializer ''email-confirm-v2'' 3600 (timestamp (demo_request\<lparr>timestamp := 100\<rparr>))
     demo_token = Inr demo_intent \<and>
   select_vote demo_closed_db (poll_id demo_intent) (email demo_intent) = None \<and>
   select_poll demo_closed_db (poll_id demo_intent) =
     Some \<lparr>p_id = ''0123456789ab'', question = ''Best language?'', created_at = 5,
           is_active = False, max_votes = 1000, expire_date = Some 0\<rparr> \<and>
   sql_integer (option_id demo_intent) = Some 1 \<and>
   1 \<in> set (map o_id (options demo_closed_db)) \<and>
   poll ''0123456789ab'' (demo_request\<lparr>timestamp := 100\<rparr>) demo_closed_db = PollNotActive \<and>
   fst (confirm_vote demo_serializer demo_token (demo_request\<lparr>timestamp := 100\<rparr>)
          demo_closed_db) = VoteRecorded"
proof -
  have l: "loads demo_serializer ''email-confirm-v2'' 3600
              (timestamp (demo_request\<lparr>timestamp := 100\<rparr>)) demo_token = Inr demo_intent"
    by code_simp
  have k: "select_vote demo_closed_db (poll_id demo_intent) (email demo_intent) = None"
    by code_simp
  have sp: "select_poll demo_closed_db (poll_id demo_intent) =
     Some \<lparr>p_id = ''0123456789ab'', question = ''Best language?'', created_at = 5,
           is_active = False, max_votes = 1000, expire_date = Some 0\<rparr>"
    by code_simp
  have n: "sql_integer (option_id demo_intent) = Some 1" by code_simp
  have o: "1 \<in> set (map o_id (options demo_closed_db))" by code_simp
  have v: "poll ''0123456789ab'' (demo_request\<lparr>timestamp := 100\<rparr>) demo_closed_db = PollNotActive"
    by code_simp
  from confirm_vote_ignores_poll_lifecycle [OF l k sp n o]
  have "fst (confirm_vote demo_serializer demo_token (demo_request\<lparr>timestamp := 100\<rparr>)
          demo_closed_db) = VoteRecorded"
    by simp
  with l k sp n o v show ?thesis by blast
qed

text \<open>
  C9. \<^verbatim>\<open>vote\<close> writes to none of \<^verbatim>\<open>polls\<close>, \<^verbatim>\<open>options\<close> and \<^verbatim>\<open>votes\<close>, whatever it
  answers; only the rate limiter's table may differ afterwards. When mail delivery fails
  it never answers that the confirmation was sent, and a request that would have been
  mailed had delivery worked is answered "verification email could not be sent".
\<close>

theorem failed_delivery_changes_nothing:
  "let (r, d') = vote ser pid em oid req d
   in polls d' = polls d \<and> options d' = options d \<and> votes d' = votes d \<and>
      options_seq d' = options_seq d \<and> votes_seq d' = votes_seq d \<and>
      (\<not> mail_ok req \<longrightarrow>
         r \<noteq> ConfirmationSent token \<and>
         (fst (vote ser pid em oid (req\<lparr>mail_ok := True\<rparr>) d) = ConfirmationSent token
            \<longrightarrow> r = MailNotSent))"
proof -
  obtain r d' where v: "vote ser pid em oid req d = (r, d')"
    by (cases "vote ser pid em oid req d")
  from vote_tables [OF v] have e: "d' = d\<lparr>rate_limits := rate_limits d'\<rparr>" .
  have t: "polls d' = polls d" "options d' = options d" "votes d' = votes d"
    "options_seq d' = options_seq d" "votes_seq d' = votes_seq d"
    by (subst e, simp)+
  have n: "r \<noteq> ConfirmationSent token" if "\<not> mail_ok req"
  proof (cases "check_rate_limit ''vote'' 50 300 req d")
    case (Pair b d0)
    show ?thesis
    proof (cases b)
      case True
      with Pair v have "r = fst (vote_inner ser pid em oid req d0)"
        by (simp add: vote_def rate_limit_decorator_def)
      with vote_inner_not_sent [OF that] show ?thesis by simp
    next
      case False
      with Pair v show ?thesis by (simp add: vote_def rate_limit_decorator_def)
    qed
  qed
  have m: "r = MailNotSent"
    if f: "\<not> mail_ok req"
      and s: "fst (vote ser pid em oid (req\<lparr>mail_ok := True\<rparr>) d) = ConfirmationSent token"
  proof (cases "check_rate_limit ''vote'' 50 300 req d")
    case (Pair b d0)
    from f have req: "req = req\<lparr>mail_ok := False\<rparr>" by simp
    show ?thesis
    proof (cases b)
      case True
      with Pair s have "fst (vote_inner ser pid em oid (req\<lparr>mail_ok := True\<rparr>) d0)
                          = ConfirmationSent token"
        by (simp add: vote_def rate_limit_decorator_def)
      then obtain d1 where "vote_inner ser pid em oid (req\<lparr>mail_ok := True\<rparr>) d0
                          = (ConfirmationSent token, d1)"
        by (cases "vote_inner ser pid em oid (req\<lparr>mail_ok := True\<rparr>) d0") simp
      from vote_inner_mail_fails [OF this]
      have "vote_inner ser pid em oid req d0 = (MailNotSent, d0)"
        using req by simp
      with Pair True v show ?thesis by (simp add: vote_def rate_limit_decorator_def)
    next
      case False
      with Pair s show ?thesis by (simp add: vote_def rate_limit_decorator_def)
    qed
  qed
  from t n m show ?thesis by (simp add: v)
qed

theorem failed_delivery_changes_nothing_witness:
  "\<not> mail_ok (demo_request\<lparr>mail_ok := False\<rparr>) \<and>
   fst (vote demo_serializer ''0123456789ab'' ''a@b.com'' ''1''
          (demo_request\<lparr>mail_ok := False, mail_ok := True\<rparr>) demo_poll_db)
     = ConfirmationSent demo_token \<and>
   (let (r, d') = vote demo_serializer ''0123456789ab'' ''a@b.com'' ''1''
                    (demo_request\<lparr>mail_ok := False\<rparr>) demo_poll_db
    in r = MailNotSent \<and> polls d' = polls demo_poll_db \<and> options d' = options demo_poll_db \<and>
       votes d' = votes demo_poll_db)"
proof -
  have f: "\<not> mail_ok (demo_request\<lparr>mail_ok := False\<rparr>)" by simp
  have s: "fst (vote demo_serializer ''0123456789ab'' ''a@b.com'' ''1''
             (demo_request\<lparr>mail_ok := False, mail_ok := True\<rparr>) demo_poll_db)
           = ConfirmationSent demo_token"
    by code_simp
  from failed_delivery_changes_nothing
         [of demo_serializer "''0123456789ab''" "''a@b.com''" "''1''"
             "demo_request\<lparr>mail_ok := False\<rparr>" demo_poll_db demo_token] f s
  show ?thesis by (auto simp: Let_def split: prod.splits)
qed

text \<open>
  C3. The poll view refuses a poll whose \<^verbatim>\<open>expire_date\<close> has passed, and \<^verbatim>\<open>vote\<close> should
  refuse it too. Evaluated one microsecond after the expiry date of the demo poll: the
  poll is not votable, the view answers "expired", and \<^verbatim>\<open>vote\<close> mails a confirmation
  token all the same: it selects \<^verbatim>\<open>expire_date\<close> and never compares it.
\<close>

theorem vote_accepts_expired_poll:
  "select_poll demo_poll_db ''0123456789ab'' =
     Some \<lparr>p_id = ''0123456789ab'', question = ''Best language?'', created_at = 5,
           is_active = True, max_votes = 1000, expire_date = Some 2592000001000\<rparr> \<and>
   \<not> spec_votable 2592000001001
       \<lparr>p_id = ''0123456789ab'', question = ''Best language?'', created_at = 5,
        is_active = True, max_votes = 1000, expire_date = Some 2592000001000\<rparr> \<and>
   poll ''0123456789ab'' (demo_request\<lparr>now := 2592000001001\<rparr>) demo_poll_db = PollExpired \<and>
   fst (vote demo_serializer ''0123456789ab'' ''a@b.com'' ''1''
          (demo_request\<lparr>now := 2592000001001\<rparr>) demo_poll_db) = ConfirmationSent demo_token"
  by code_simp

text \<open>
  C5. \<^verbatim>\<open>confirm_vote\<close> catches \<^verbatim>\<open>SignatureExpired\<close> and \<^verbatim>\<open>BadTimeSignature\<close> only. A token
  with no separator makes \<^verbatim>\<open>loads\<close> raise the plain \<^verbatim>\<open>BadSignature\<close>, which neither
  clause catches: the request ends as an internal server error instead of "invalid
  verification link", for every serializer, request and database. No vote is written.
\<close>

theorem confirm_vote_unhandled_bad_signature:
  "confirm_vote ser ''abc'' req d = (InternalServerError, d)"
  by (simp add: confirm_vote_def loads_def timed_unsign_def unsign_def sep_def)

text \<open>
  C6. The poll view and the results view reject an identifier that is not twelve
  lower-case hex digits before they look anything up; \<^verbatim>\<open>vote\<close> has no such check and
  answers "this poll is not active" after looking the identifier up. The pattern's
  \<^verbatim>\<open>$\<close> also lets twelve hex digits followed by a newline through to the lookup.
\<close>

theorem vote_skips_poll_id_check:
  "poll ''not-a-poll'' demo_request init_db = InvalidPollId \<and>
   results ''not-a-poll'' demo_request init_db = InvalidPollId \<and>
   fst (vote demo_serializer ''not-a-poll'' ''a@b.com'' ''1'' demo_request init_db)
     = VotePollNotActive \<and>
   poll (''0123456789ab'' @ [CHR 0x0A]) demo_request init_db = PollNotFound"
  by code_simp

text \<open>
  C7, as stated, at three submitted options that are pairwise distinct and each 2 to 200
  characters long, the third being a blank and one letter: \<^verbatim>\<open>create_poll\<close> trims every
  option before it measures it, drops the third as too short, and creates the poll with
  2 option rows, not 3.
\<close>

theorem create_poll_drops_trimmed_option:
  "length ''Go'' = 2 \<and> length ''Rust'' = 4 \<and> length '' x'' = 2 \<and>
   card (set [''Go'', ''Rust'', '' x'']) = 3 \<and>
   create_poll plain ''Best language?'' [''Go'', ''Rust'', '' x''] demo_request init_db
     = (PollCreated ''0123456789ab'', demo_poll_db) \<and>
   length (poll_options demo_poll_db ''0123456789ab'') = 2"
  by code_simp

text \<open>
  C7, amended. An option counts as it is stored: trimmed, cut to 200 characters and
  cleaned (an empty field stays empty), and kept when at least 2 characters are left.
  When \<^verbatim>\<open>create_poll\<close> creates a poll, in a database reached by any sequence of
  requests, the kept options are pairwise distinct, the poll has one row of
  \<^verbatim>\<open>options\<close> per kept option, with exactly those texts in the submitted order, and
  after any further sequence of requests the tally of the poll, and so the results
  page, lists exactly those texts, each once.
\<close>

theorem created_options_are_tallied:
  assumes c: "create_poll clean q raw req (run ser clean before init_db) = (PollCreated pid, d1)"
  shows "let kept = filter (\<lambda>cleaned. 2 \<le> length cleaned)
                      (map (\<lambda>opt. if opt = [] then [] else clean (take 200 (strip opt))) raw)
         in distinct kept \<and>
            length (poll_options d1 pid) = card (set kept) \<and>
            map option_text (poll_options d1 pid) = kept \<and>
            (let d2 = run ser clean later d1
             in mset (map option_text (tally d2 pid)) = mset kept \<and>
                (re_match_dollar poll_id_pattern pid \<longrightarrow>
                   (\<exists>p total. results pid req2 d2 = ResultsPage p (tally d2 pid) total)))"
proof -
  from created_options_valid [OF c, of later req2]
  have 1: "length (poll_options d1 pid) = card (set (valid_options clean raw))"
    and 2: "map option_text (poll_options d1 pid) = valid_options clean raw"
    and 3: "let d2 = run ser clean later d1
            in mset (map option_text (tally d2 pid)) = mset (valid_options clean raw) \<and>
               (re_match_dollar poll_id_pattern pid \<longrightarrow>
                  (\<exists>p total. results pid req2 d2 = ResultsPage p (tally d2 pid) total))"
    by blast+
  from 1 2 have "length (valid_options clean raw) = card (set (valid_options clean raw))"
    by (metis length_map)
  then have 4: "distinct (valid_options clean raw)"
    by (simp add: card_distinct)
  from 1 2 3 4 show ?thesis
    unfolding valid_options_submitted [symmetric] by (simp add: Let_def)
qed

theorem created_options_are_tallied_witness:
  "create_poll plain ''Best language?'' [''Go'', '' x'', ''Rust'', [], ''a''] demo_request
     (run demo_serializer plain [] init_db) = (PollCreated ''0123456789ab'', demo_poll_db) \<and>
   re_match_dollar poll_id_pattern ''0123456789ab'' \<and>
   length (poll_options demo_poll_db ''0123456789ab'') = 2 \<and>
   map option_text (poll_options demo_poll_db ''0123456789ab'') = [''Go'', ''Rust''] \<and>
   mset (map option_text
          (tally (run demo_serializer plain (drop 1 demo_calls) demo_poll_db) ''0123456789ab''))
     = mset [''Go'', ''Rust''] \<and>
   (\<exists>p total. results ''0123456789ab'' demo_request
                 (run demo_serializer plain (drop 1 demo_calls) demo_poll_db)
               = ResultsPage p
                   (tally (run demo_serializer plain (drop 1 demo_calls) demo_poll_db)
                      ''0123456789ab'') total)"
proof -
  have c: "create_poll plain ''Best language?'' [''Go'', '' x'', ''Rust'', [], ''a''] demo_request
             (run demo_serializer plain [] init_db) = (PollCreated ''0123456789ab'', demo_poll_db)"
    by code_simp
  have m: "re_match_dollar poll_id_pattern ''0123456789ab''"
    by code_simp
  have v: "filter (\<lambda>cleaned. 2 \<le> length cleaned)
             (map (\<lambda>opt. if opt = [] then [] else plain (take 200 (strip opt)))
                [''Go'', '' x'', ''Rust'', [], ''a'']) = [''Go'', ''Rust'']"
    by code_simp
  from created_options_are_tallied [OF c, of "drop 1 demo_calls" demo_request] m c
  show ?thesis unfolding v by (simp add: Let_def)
qed

text \<open>
  C8, as stated, at a question of exactly 10 characters that begins and ends with
  blanks, submitted with two valid options: the handler measures the question after
  \<^verbatim>\<open>sanitize_input\<close> has trimmed it, finds 7 characters and rejects it.
\<close>

theorem create_poll_padded_question_rejected:
  "length '' Why Go?  '' = 10 \<and>
   fst (create_poll plain '' Why Go?  '' [''Go'', ''Rust''] demo_request init_db)
     = QuestionTooShort"
  by code_simp

text \<open>
  C8, amended. Lengths and counts are taken after \<^verbatim>\<open>sanitize_input\<close> (text trimmed, cut to
  its maximum length and cleaned; options left with fewer than 2 characters are
  dropped). For a request that the rate limiter admits and whose generated identifier
  is unused: a question of at most 9 characters is rejected; with a question of at least
  10 characters, at most 1 valid option is rejected, 11 or more valid options are
  rejected, valid options of which two have the same text are rejected, and 2 to 10
  pairwise distinct valid options create the poll. So the boundaries are 9 against 10
  characters, 1 against 2 options and 10 against 11 options.
\<close>

theorem create_poll_boundaries:
  assumes rate: "fst (check_rate_limit ''create_poll'' 50 300 req d)"
    and fresh: "take 12 (uuid4_hex req) \<notin> set (map p_id (polls d))"
  shows "let q = sanitize_input clean form_question 500;
             opts = valid_options clean raw_options;
             r = fst (create_poll clean form_question raw_options req d)
         in (length q \<le> 9 \<longrightarrow> r = QuestionTooShort) \<and>
            (10 \<le> length q \<and> length opts \<le> 1 \<longrightarrow> r = TooFewOptions) \<and>
            (10 \<le> length q \<and> 11 \<le> length opts \<longrightarrow> r = TooManyOptions) \<and>
            (10 \<le> length q \<and> length opts \<le> 10 \<and> \<not> distinct opts
               \<longrightarrow> r = OptionsNotDistinct) \<and>
            (10 \<le> length q \<and> 2 \<le> length opts \<and> length opts \<le> 10 \<and> distinct opts
               \<longrightarrow> r = PollCreated (take 12 (uuid4_hex req)))"
proof -
  have short: "distinct (valid_options clean raw_options)"
    if "length (valid_options clean raw_options) < 2"
    using that by (cases "valid_options clean raw_options") auto
  show ?thesis
    unfolding Let_def create_poll_response [OF rate fresh]
    using short by auto
qed

theorem create_poll_boundaries_witness:
  "fst (check_rate_limit ''create_poll'' 50 300 demo_request init_db) \<and>
   take 12 (uuid4_hex demo_request) \<notin> set (map p_id (polls init_db)) \<and>
   length (sanitize_input plain ''012345678'' 500) = 9 \<and>
   fst (create_poll plain ''012345678'' [''Go'', ''Rust''] demo_request init_db)
     = QuestionTooShort \<and>
   length (sanitize_input plain ''0123456789'' 500) = 10 \<and>
   length (valid_options plain [''Go'', ''Rust'']) = 2 \<and>
   distinct (valid_options plain [''Go'', ''Rust'']) \<and>
   fst (create_poll plain ''0123456789'' [''Go'', ''Rust''] demo_request init_db)
     = PollCreated ''0123456789ab'' \<and>
   length (valid_options plain [''Go'']) = 1 \<and>
   fst (create_poll plain ''0123456789'' [''Go''] demo_request init_db) = TooFewOptions \<and>
   length (valid_options plain demo_ten_options) = 10 \<and>
   distinct (valid_options plain demo_ten_options) \<and>
   fst (create_poll plain ''0123456789'' demo_ten_options demo_request init_db)
     = PollCreated ''0123456789ab'' \<and>
   length (valid_options plain (demo_ten_options @ [''oA''])) = 11 \<and>
   fst (create_poll plain ''0123456789'' (demo_ten_options @ [''oA'']) demo_request init_db)
     = TooManyOptions \<and>
   length (valid_options plain [''Go'', ''Go'']) \<le> 10 \<and>
   \<not> distinct (valid_options plain [''Go'', ''Go'']) \<and>
   fst (create_poll plain ''0123456789'' [''Go'', ''Go''] demo_request init_db)
     = OptionsNotDistinct"
proof -
  have rate: "fst (check_rate_limit ''create_poll'' 50 300 demo_request init_db)"
    by code_simp
  have fresh: "take 12 (uuid4_hex demo_request) \<notin> set (map p_id (polls init_db))"
    by code_simp
  have pid: "take 12 (uuid4_hex demo_request) = ''0123456789ab''"
    by code_simp
  note b = create_poll_boundaries [OF rate fresh, of plain, unfolded Let_def pid]
  have q9: "length (sanitize_input plain ''012345678'' 500) = 9" by code_simp
  have q10: "length (sanitize_input plain ''0123456789'' 500) = 10" by code_simp
  have o2: "length (valid_options plain [''Go'', ''Rust'']) = 2"
    "distinct (valid_options plain [''Go'', ''Rust''])" by code_simp+
  have o1: "length (valid_options plain [''Go'']) = 1" by code_simp
  have o10: "length (valid_options plain demo_ten_options) = 10"
    "distinct (valid_options plain demo_ten_options)" by code_simp+
  have o11: "length (valid_options plain (demo_ten_options @ [''oA''])) = 11" by code_simp
  have od: "length (valid_options plain [''Go'', ''Go'']) \<le> 10"
    "\<not> distinct (valid_options plain [''Go'', ''Go''])" by code_simp+
  have r1: "fst (create_poll plain ''012345678'' [''Go'', ''Rust''] demo_request init_db)
              = QuestionTooShort"
    using b [of "''012345678''" "[''Go'', ''Rust'']"] q9 by simp
  have r2: "fst (create_poll plain ''0123456789'' [''Go'', ''Rust''] demo_request init_db)
              = PollCreated ''0123456789ab''"
    using b [of "''0123456789''" "[''Go'', ''Rust'']"] q10 o2 by simp
  have r3: "fst (create_poll plain ''0123456789'' [''Go''] demo_request init_db) = TooFewOptions"
    using b [of "''0123456789''" "[''Go'']"] q10 o1 by simp
  have r4: "fst (create_poll plain ''0123456789'' demo_ten_options demo_request init_db)
              = PollCreated ''0123456789ab''"
    using b [of "''0123456789''" demo_ten_options] q10 o10 by simp
  have r5: "fst (create_poll plain ''0123456789'' (demo_ten_options @ [''oA''])
                   demo_request init_db) = TooManyOptions"
    using b [of "''0123456789''" "demo_ten_options @ [''oA'']"] q10 o11 by simp
  have r6: "fst (create_poll plain ''0123456789'' [''Go'', ''Go''] demo_request init_db)
              = OptionsNotDistinct"
    using b [of "''0123456789''" "[''Go'', ''Go'']"] q10 od by simp
  from rate fresh q9 q10 o2 o1 o10 o11 od r1 r2 r3 r4 r5 r6 show ?thesis
    unfolding pid by blast
qed

end
